theory Spec2Isabelle
  imports Complex_Main "HOL-Library.Multiset" "HOL-Library.AList"
begin

section \<open>Data model of \<open>traffic_controller.py\<close>\<close>

text \<open>
  Directions are Python strings in the source, so they are strings here; the lookup tables
  of the source fall back to a default for a string that is no direction.
  Python floats (clock readings, durations) are idealised as real numbers, Python ints
  are \<open>int\<close>.
\<close>

datatype SignalState = RED | YELLOW | GREEN | EMERGENCY

datatype error = Empty | TypeError | KeyError | ValueError

type_synonym 'a outcome = "error + 'a"

record TrafficStats =
  total_cycles :: int
  total_wait_time :: real
  emergency_responses :: int
  deadlock_preventions :: int
  average_green_time :: real
  vehicles_passed :: int

text \<open>\<open>class EmergencyVehicle\<close>; \<open>timestamp\<close> is the clock reading of the constructor.\<close>

record EmergencyVehicle =
  ev_direction :: string
  vehicle_id :: int
  timestamp :: real
  handled :: bool

text \<open>
  The messages handed to \<open>log_event\<close>, one constructor per f-string of the source. The
  wall-clock prefix that \<open>log_event\<close> puts in front of the message is left out.
\<close>

datatype event =
    EmergencyApproaching int string
  | IsNow string string
  | IsNowRed string
  | IsNowYellow string
  | PedestrianWaiting string
  | TimeoutForcing string
  | ErrorIn string error
  | SystemStarted
  | SystemStopping

text \<open>
  An entry of the emergency queue is the Python tuple \<open>(priority, emergency)\<close>. The second
  component is a reference to an \<open>EmergencyVehicle\<close> object: the objects live in the store
  \<open>vehicles\<close> of the intersection and a reference is an index into it, because the
  controller that serves a request sets \<open>handled\<close> on the very object the queue holds.
\<close>

type_synonym entry = "real \<times> nat"

record Intersection =
  intersection_id :: string
  active_directions :: "string list"
  green_semaphore :: nat
  vehicles :: "EmergencyVehicle list"
  emergency_queue :: "entry list"
  traffic_density :: "(string \<times> int) list"
  stats :: TrafficStats
  pedestrian_waiting :: "(string \<times> bool) list"
  event_log :: "event list"

section \<open>\<open>queue.PriorityQueue\<close>: the binary heap of the standard library\<close>

text \<open>
  \<open>PriorityQueue.put\<close> is \<open>heappush\<close> and \<open>PriorityQueue.get\<close> is \<open>heappop\<close> on a Python
  list. The functions are those of the C module \<open>_heapq\<close>, which \<open>heapq\<close> imports over its
  own Python definitions: they move an entry by swapping it with its parent or child, so
  the list is a permutation of the entries at every moment, also when a comparison raises.
  The heap compares the tuples with \<open><\<close>: the priorities decide; on equal priorities
  Python goes on to the second components, which are equal only if they are the same object,
  and otherwise \<open>EmergencyVehicle < EmergencyVehicle\<close> raises \<open>TypeError\<close>. An exception
  leaves the list as it is at that moment, so every function returns the list as well.
\<close>

definition tuple_lt :: "entry \<Rightarrow> entry \<Rightarrow> bool outcome" where
  "tuple_lt a b =
     (if fst a \<noteq> fst b then Inr (fst a < fst b)
      else if snd a = snd b then Inr False
      else Inl TypeError)"

text \<open>
  \<open>siftdown\<close>: the entry at \<open>pos\<close> is swapped with its parent as long as it is less than
  the parent and \<open>pos\<close> is above \<open>startpos\<close>.
\<close>

function siftdown :: "entry list \<Rightarrow> nat \<Rightarrow> nat \<Rightarrow> error option \<times> entry list" where
  "siftdown heap startpos pos =
     (if pos > startpos then
        (let parentpos = (pos - 1) div 2;
             newitem = heap ! pos;
             parent = heap ! parentpos
         in case tuple_lt newitem parent of
              Inl e \<Rightarrow> (Some e, heap)
            | Inr lt \<Rightarrow>
                if lt then siftdown (heap[parentpos := newitem, pos := parent]) startpos parentpos
                else (None, heap))
      else (None, heap))"
  by pat_completeness auto
termination
  by (relation "measure (\<lambda>(heap, startpos, pos). pos)") auto

declare siftdown.simps [simp del]

text \<open>
  The loop of \<open>siftup\<close>: while the position has a child (\<open>pos < endpos >> 1\<close>), the entry is
  swapped with its smaller child; the two children are compared only when there is a right
  one, and the right one is taken when the left one is not less. It returns the list and
  the position reached.
\<close>

function siftup_loop :: "entry list \<Rightarrow> nat \<Rightarrow> nat \<Rightarrow> error option \<times> entry list \<times> nat" where
  "siftup_loop heap endpos pos =
     (if pos < endpos div 2 then
        (let childpos = 2 * pos + 1
         in case (if childpos + 1 < endpos
                  then tuple_lt (heap ! childpos) (heap ! (childpos + 1))
                  else Inr True) of
              Inl e \<Rightarrow> (Some e, heap, pos)
            | Inr lt \<Rightarrow>
                (let childpos1 = (if lt then childpos else childpos + 1)
                 in siftup_loop (heap[childpos1 := heap ! pos, pos := heap ! childpos1])
                      endpos childpos1))
      else (None, heap, pos))"
  by pat_completeness auto
termination
  by (relation "measure (\<lambda>(heap, endpos, pos). endpos - pos)") auto

declare siftup_loop.simps [simp del]

definition siftup :: "entry list \<Rightarrow> nat \<Rightarrow> error option \<times> entry list" where
  "siftup heap pos =
     (case siftup_loop heap (length heap) pos of
        (Some e, heap1, pos1) \<Rightarrow> (Some e, heap1)
      | (None, heap1, pos1) \<Rightarrow> siftdown heap1 pos pos1)"

definition heappush :: "entry list \<Rightarrow> entry \<Rightarrow> error option \<times> entry list" where
  "heappush heap item = siftdown (heap @ [item]) 0 (length heap)"

text \<open>\<open>heappop\<close> on a list that is not empty (the queue checks that before it calls).\<close>

definition heappop :: "entry list \<Rightarrow> entry outcome \<times> entry list" where
  "heappop heap =
     (let lastelt = last heap;
          heap1 = butlast heap
      in if heap1 \<noteq> [] then
           (let returnitem = heap1 ! 0
            in case siftup (heap1[0 := lastelt]) 0 of
                 (Some e, heap2) \<Rightarrow> (Inl e, heap2)
               | (None, heap2) \<Rightarrow> (Inr returnitem, heap2))
         else (Inr lastelt, heap1))"

definition put :: "entry list \<Rightarrow> entry \<Rightarrow> error option \<times> entry list" where
  "put q item = heappush q item"

definition get_nowait :: "entry list \<Rightarrow> entry outcome \<times> entry list" where
  "get_nowait q = (if q = [] then (Inl Empty, q) else heappop q)"

section \<open>\<open>class Intersection\<close>\<close>

definition Intersection_init :: "string \<Rightarrow> Intersection" where
  "Intersection_init ident =
     \<lparr> intersection_id = ident,
       active_directions = [],
       green_semaphore = 2,
       vehicles = [],
       emergency_queue = [],
       traffic_density = [(''NORTH'', 0), (''SOUTH'', 0), (''EAST'', 0), (''WEST'', 0)],
       stats = \<lparr> total_cycles = 0, total_wait_time = 0, emergency_responses = 0,
                 deadlock_preventions = 0, average_green_time = 0, vehicles_passed = 0 \<rparr>,
       pedestrian_waiting =
         [(''NORTH'', False), (''SOUTH'', False), (''EAST'', False), (''WEST'', False)],
       event_log = [] \<rparr>"

text \<open>
  \<open>log_event\<close>: the log is a \<open>queue.Queue(maxsize=100)\<close>; when it is full the oldest entry
  is taken out and the new one appended.
\<close>

definition log_event :: "Intersection \<Rightarrow> event \<Rightarrow> Intersection" where
  "log_event I ev =
     (if length (event_log I) < 100 then I\<lparr>event_log := event_log I @ [ev]\<rparr>
      else I\<lparr>event_log := tl (event_log I) @ [ev]\<rparr>)"

definition get_opposing_direction :: "string \<Rightarrow> string" where
  "get_opposing_direction direction =
     (case map_of [(''NORTH'', ''SOUTH''), (''SOUTH'', ''NORTH''),
                   (''EAST'', ''WEST''), (''WEST'', ''EAST'')] direction of
        Some d \<Rightarrow> d
      | None \<Rightarrow> '''')"

definition get_conflicting_directions :: "string \<Rightarrow> string list" where
  "get_conflicting_directions direction =
     (case map_of [(''NORTH'', [''EAST'', ''WEST'']), (''SOUTH'', [''EAST'', ''WEST'']),
                   (''EAST'', [''NORTH'', ''SOUTH'']), (''WEST'', [''NORTH'', ''SOUTH''])] direction of
        Some ds \<Rightarrow> ds
      | None \<Rightarrow> [])"

text \<open>
  \<open>has_emergency_vehicle\<close>: take the head of the queue, put it back, and return the object
  if it is not handled. Only \<open>queue.Empty\<close> is caught.
\<close>

definition has_emergency_vehicle :: "Intersection \<Rightarrow> nat option outcome \<times> Intersection" where
  "has_emergency_vehicle I =
     (case get_nowait (emergency_queue I) of
        (Inl e, q) \<Rightarrow>
          if e = Empty then (Inr None, I\<lparr>emergency_queue := q\<rparr>)
          else (Inl e, I\<lparr>emergency_queue := q\<rparr>)
      | (Inr (priority, emergency), q) \<Rightarrow>
          (case put q (priority, emergency) of
             (Some e, q1) \<Rightarrow> (Inl e, I\<lparr>emergency_queue := q1\<rparr>)
           | (None, q1) \<Rightarrow>
               (if \<not> handled (vehicles I ! emergency) then Inr (Some emergency) else Inr None,
                I\<lparr>emergency_queue := q1\<rparr>)))"

text \<open>
  \<open>add_emergency_vehicle\<close> reads the clock twice: in the constructor of the vehicle
  (\<open>created\<close>) and for the priority (\<open>queued\<close>). The priority is the negated reading.
\<close>

definition add_emergency_vehicle ::
    "Intersection \<Rightarrow> string \<Rightarrow> real \<Rightarrow> real \<Rightarrow> error option \<times> Intersection" where
  "add_emergency_vehicle I direction created queued =
     (let vid = emergency_responses (stats I) + 1;
          emergency = \<lparr> ev_direction = direction, vehicle_id = vid,
                        timestamp = created, handled = False \<rparr>;
          ref = length (vehicles I);
          I1 = I\<lparr>vehicles := vehicles I @ [emergency]\<rparr>
      in case put (emergency_queue I1) (- queued, ref) of
           (Some e, q) \<Rightarrow> (Some e, I1\<lparr>emergency_queue := q\<rparr>)
         | (None, q) \<Rightarrow>
             (None, log_event (I1\<lparr>emergency_queue := q\<rparr>) (EmergencyApproaching vid direction)))"

text \<open>The loop over the conflicting directions in \<open>can_proceed\<close>: true at the first one that is active.\<close>

fun conflict_active :: "string list \<Rightarrow> string list \<Rightarrow> bool" where
  "conflict_active [] active = False"
| "conflict_active (conflict # conflicts) active =
     (if conflict \<in> set active then True else conflict_active conflicts active)"

definition can_proceed :: "Intersection \<Rightarrow> string \<Rightarrow> bool \<Rightarrow> bool outcome \<times> Intersection" where
  "can_proceed I direction check_emergency =
     (case (if check_emergency then has_emergency_vehicle I else (Inr None, I)) of
        (Inl e, I1) \<Rightarrow> (Inl e, I1)
      | (Inr emergency, I1) \<Rightarrow>
          if (case emergency of
                Some r \<Rightarrow> ev_direction (vehicles I1 ! r) \<noteq> direction
              | None \<Rightarrow> False)
          then (Inr False, I1)
          else if conflict_active (get_conflicting_directions direction) (active_directions I1)
          then (Inr False,
                I1\<lparr>stats := (stats I1)\<lparr>deadlock_preventions := deadlock_preventions (stats I1) + 1\<rparr>\<rparr>)
          else if get_opposing_direction direction \<in> set (active_directions I1) then (Inr True, I1)
          else if length (active_directions I1) = 0 then (Inr True, I1)
          else if length (active_directions I1) < 2 then (Inr True, I1)
          else (Inr False, I1))"

text \<open>
  \<open>enter_intersection\<close> first acquires the semaphore, which blocks while no token is left:
  the result is \<open>None\<close> in a state where the call cannot go on.
\<close>

definition enter_intersection :: "Intersection \<Rightarrow> string \<Rightarrow> bool \<Rightarrow> Intersection option" where
  "enter_intersection I direction is_emergency =
     (if green_semaphore I = 0 then None
      else
        (let I1 = I\<lparr>green_semaphore := green_semaphore I - 1\<rparr>;
             I2 = I1\<lparr>active_directions := active_directions I1 @ [direction]\<rparr>;
             I3 = log_event I2 (IsNow direction (if is_emergency then ''EMERGENCY'' else ''GREEN''));
             I4 = I3\<lparr>stats := (stats I3)\<lparr>total_cycles := total_cycles (stats I3) + 1\<rparr>\<rparr>
         in Some (if is_emergency
                  then I4\<lparr>stats := (stats I4)\<lparr>emergency_responses := emergency_responses (stats I4) + 1\<rparr>\<rparr>
                  else I4)))"

definition exit_intersection :: "Intersection \<Rightarrow> string \<Rightarrow> Intersection" where
  "exit_intersection I direction =
     (let I1 = (if direction \<in> set (active_directions I)
                then log_event (I\<lparr>active_directions := remove1 direction (active_directions I)\<rparr>)
                               (IsNowRed direction)
                else I)
      in I1\<lparr>green_semaphore := green_semaphore I1 + 1\<rparr>)"

definition update_traffic_density :: "Intersection \<Rightarrow> string \<Rightarrow> int \<Rightarrow> Intersection" where
  "update_traffic_density I direction density =
     I\<lparr>traffic_density := AList.update direction (max 0 (min 100 density)) (traffic_density I)\<rparr>"

text \<open>
  \<open>get_adaptive_green_time\<close> only reads the intersection, so it returns a value and no
  state; \<open>self.traffic_density[direction]\<close> raises \<open>KeyError\<close> for a key that is not there.
\<close>

definition get_adaptive_green_time :: "Intersection \<Rightarrow> string \<Rightarrow> real \<Rightarrow> real outcome" where
  "get_adaptive_green_time I direction base_time =
     (case map_of (traffic_density I) direction of
        None \<Rightarrow> Inl KeyError
      | Some density \<Rightarrow>
          (let multiplier = 0.5 + (real_of_int density / 100.0)
           in Inr (base_time * multiplier)))"

definition set_pedestrian_waiting :: "Intersection \<Rightarrow> string \<Rightarrow> bool \<Rightarrow> Intersection" where
  "set_pedestrian_waiting I direction waiting =
     (let I1 = I\<lparr>pedestrian_waiting := AList.update direction waiting (pedestrian_waiting I)\<rparr>
      in if waiting then log_event I1 (PedestrianWaiting direction) else I1)"

section \<open>\<open>class TrafficSignal\<close>: one thread per signal\<close>

text \<open>
  The thread of a signal is modelled by its position in \<open>run\<close> between two points where it
  sleeps or may block, and by a step function that runs the code from one such point to the
  next. Code under the lock of the intersection is one step, and so are the two queue
  operations of \<open>has_emergency_vehicle\<close> where \<open>handle_emergency\<close> calls it without the
  lock. A position:
  \<^item> \<open>Start\<close>: in the initial random sleep;
  \<^item> \<open>LoopHead\<close>: at the test of \<open>while self.running\<close> in \<open>run\<close>;
  \<^item> \<open>EmergencyEnter r\<close>: in \<open>handle_emergency\<close>, at the semaphore of \<open>enter_intersection\<close>,
    serving the request with reference \<open>r\<close>;
  \<^item> \<open>EmergencyHold r\<close>: in the sleep of 3 seconds of \<open>handle_emergency\<close>;
  \<^item> \<open>WaitForTurn start_wait\<close>: at the test of \<open>while self.running\<close> in \<open>wait_for_turn\<close>;
  \<^item> \<open>GreenEnter green_time\<close>: \<open>wait_for_turn\<close> has returned true and the green time is
    computed; at the semaphore of \<open>enter_intersection\<close>;
  \<^item> \<open>GreenHold\<close>, \<open>YellowHold\<close>, \<open>RedHold\<close>: in the sleep of that phase;
  \<^item> \<open>Stopped\<close>: the loop was left because \<open>running\<close> is false;
  \<^item> \<open>Crashed l\<close>: the step from position \<open>l\<close> raised, the handler logged it and left the loop.
\<close>

datatype location =
    Start
  | LoopHead
  | EmergencyEnter nat
  | EmergencyHold nat
  | WaitForTurn real
  | GreenEnter real
  | GreenHold
  | YellowHold
  | RedHold
  | Stopped
  | Crashed location

text \<open>\<open>sig_intersection\<close> is the reference \<open>self.intersection\<close>: an index into the controller's list.\<close>

record TrafficSignal =
  sig_direction :: string
  sig_intersection :: nat
  state :: SignalState
  base_green_time :: real
  yellow_time :: real
  running :: bool
  cycle_count :: int
  last_state_change :: real
  pc :: location

definition TrafficSignal_init :: "string \<Rightarrow> nat \<Rightarrow> real \<Rightarrow> real \<Rightarrow> real \<Rightarrow> TrafficSignal" where
  "TrafficSignal_init direction intersection base yellow now =
     \<lparr> sig_direction = direction, sig_intersection = intersection, state = RED,
       base_green_time = base, yellow_time = yellow, running = True, cycle_count = 0,
       last_state_change = now, pc = Start \<rparr>"

text \<open>\<open>time.sleep\<close> raises \<open>ValueError\<close> for a negative duration.\<close>

definition sleep :: "real \<Rightarrow> error option" where
  "sleep secs = (if secs < 0 then Some ValueError else None)"

text \<open>The handler of \<open>run\<close>: \<open>except Exception as e: log_event(...); break\<close>.\<close>

definition on_exception :: "Intersection \<Rightarrow> TrafficSignal \<Rightarrow> error \<Rightarrow> Intersection \<times> TrafficSignal" where
  "on_exception I t e = (log_event I (ErrorIn (sig_direction t) e), t\<lparr>pc := Crashed (pc t)\<rparr>)"

text \<open>
  \<open>handle_emergency\<close> up to the call of \<open>enter_intersection\<close>: the reference of the request
  to serve, if the head of the queue is an unhandled request of this signal's direction.
\<close>

definition handle_emergency_check :: "Intersection \<Rightarrow> TrafficSignal \<Rightarrow> nat option outcome \<times> Intersection" where
  "handle_emergency_check I t =
     (case has_emergency_vehicle I of
        (Inl e, I1) \<Rightarrow> (Inl e, I1)
      | (Inr emergency, I1) \<Rightarrow>
          (case emergency of
             Some r \<Rightarrow>
               if ev_direction (vehicles I1 ! r) = sig_direction t \<and> \<not> handled (vehicles I1 ! r)
               then (Inr (Some r), I1)
               else (Inr None, I1)
           | None \<Rightarrow> (Inr None, I1)))"

text \<open>\<open>handle_emergency\<close> after the sleep: \<open>emergency.handled = True\<close> and \<open>exit_intersection\<close>.\<close>

definition handle_emergency_finish :: "Intersection \<Rightarrow> TrafficSignal \<Rightarrow> nat \<Rightarrow> Intersection" where
  "handle_emergency_finish I t r =
     exit_intersection
       (I\<lparr>vehicles := (vehicles I)[r := (vehicles I ! r)\<lparr>handled := True\<rparr>]\<rparr>)
       (sig_direction t)"

text \<open>
  One pass of the loop of \<open>wait_for_turn\<close> (the default timeout of 30 seconds is the one
  \<open>run\<close> uses), at clock reading \<open>now\<close>: \<open>Some b\<close> when the method returns \<open>b\<close>, \<open>None\<close> when
  it sleeps 0.1 seconds and goes round again.
\<close>

definition wait_for_turn_poll ::
    "real \<Rightarrow> Intersection \<Rightarrow> TrafficSignal \<Rightarrow> real \<Rightarrow> bool option outcome \<times> Intersection" where
  "wait_for_turn_poll now I t start_wait =
     (if \<not> running t then (Inr (Some False), I)
      else
        (case can_proceed I (sig_direction t) True of
           (Inl e, I1) \<Rightarrow> (Inl e, I1)
         | (Inr ok, I1) \<Rightarrow>
             if ok then
               (let wait_time = now - start_wait
                in (Inr (Some True),
                    I1\<lparr>stats := (stats I1)\<lparr>total_wait_time := total_wait_time (stats I1) + wait_time\<rparr>\<rparr>))
             else if now - start_wait > 30.0 then
               (Inr (Some True), log_event I1 (TimeoutForcing (sig_direction t)))
             else (Inr None, I1)))"

text \<open>
  \<open>run\<close>, one step of the thread at clock reading \<open>now\<close>, with \<open>rnd\<close> the value drawn by
  \<open>random.randint(3, 8)\<close>. The result is \<open>None\<close> when the thread cannot move: it is blocked at
  the semaphore, or it has left the loop.
\<close>

definition signal_step ::
    "real \<Rightarrow> int \<Rightarrow> Intersection \<Rightarrow> TrafficSignal \<Rightarrow> (Intersection \<times> TrafficSignal) option" where
  "signal_step now rnd I t =
     (case pc t of
        Start \<Rightarrow> Some (I, t\<lparr>pc := LoopHead\<rparr>)
      | LoopHead \<Rightarrow>
          if \<not> running t then Some (I, t\<lparr>pc := Stopped\<rparr>)
          else
            (case handle_emergency_check I t of
               (Inl e, I1) \<Rightarrow> Some (on_exception I1 t e)
             | (Inr (Some r), I1) \<Rightarrow> Some (I1, t\<lparr>state := EMERGENCY, pc := EmergencyEnter r\<rparr>)
             | (Inr None, I1) \<Rightarrow> Some (I1, t\<lparr>pc := WaitForTurn now\<rparr>))
      | EmergencyEnter r \<Rightarrow>
          (case enter_intersection I (sig_direction t) True of
             None \<Rightarrow> None
           | Some I1 \<Rightarrow> Some (I1, t\<lparr>pc := EmergencyHold r\<rparr>))
      | EmergencyHold r \<Rightarrow> Some (handle_emergency_finish I t r, t\<lparr>pc := LoopHead\<rparr>)
      | WaitForTurn start_wait \<Rightarrow>
          (case wait_for_turn_poll now I t start_wait of
             (Inl e, I1) \<Rightarrow> Some (on_exception I1 t e)
           | (Inr None, I1) \<Rightarrow> Some (I1, t)
           | (Inr (Some False), I1) \<Rightarrow> Some (I1, t\<lparr>pc := Stopped\<rparr>)
           | (Inr (Some True), I1) \<Rightarrow>
               (case get_adaptive_green_time I1 (sig_direction t) (base_green_time t) of
                  Inl e \<Rightarrow> Some (on_exception I1 t e)
                | Inr green_time \<Rightarrow>
                    Some (I1, t\<lparr>state := GREEN, last_state_change := now, pc := GreenEnter green_time\<rparr>)))
      | GreenEnter green_time \<Rightarrow>
          (case enter_intersection I (sig_direction t) False of
             None \<Rightarrow> None
           | Some I1 \<Rightarrow>
               (let I2 = I1\<lparr>stats := (stats I1)\<lparr>vehicles_passed := vehicles_passed (stats I1) + rnd\<rparr>\<rparr>
                in case sleep green_time of
                     Some e \<Rightarrow> Some (on_exception I2 t e)
                   | None \<Rightarrow> Some (I2, t\<lparr>pc := GreenHold\<rparr>)))
      | GreenHold \<Rightarrow>
          (let t1 = t\<lparr>state := YELLOW, last_state_change := now\<rparr>;
               I1 = log_event I (IsNowYellow (sig_direction t))
           in case sleep (yellow_time t) of
                Some e \<Rightarrow> Some (on_exception I1 t1 e)
              | None \<Rightarrow> Some (I1, t1\<lparr>pc := YellowHold\<rparr>))
      | YellowHold \<Rightarrow>
          Some (exit_intersection I (sig_direction t),
                t\<lparr>state := RED, last_state_change := now, cycle_count := cycle_count t + 1, pc := RedHold\<rparr>)
      | RedHold \<Rightarrow> Some (I, t\<lparr>pc := LoopHead\<rparr>)
      | Stopped \<Rightarrow> None
      | Crashed l \<Rightarrow> None)"

text \<open>\<open>stop\<close>\<close>

definition stop_signal :: "TrafficSignal \<Rightarrow> TrafficSignal" where
  "stop_signal t = t\<lparr>running := False\<rparr>"

section \<open>An intersection and its signal threads, running interleaved\<close>

text \<open>
  The threads of one intersection take their steps in any order; between them the
  collaborators outside may dispatch an emergency vehicle, set a density or a pedestrian
  flag, and stop a signal. A schedule is the list of these actions with the clock readings
  and random draws they see; \<open>exec\<close> runs it, and is \<open>None\<close> when the schedule asks a
  thread for a step it cannot take. Sleeps are not timed: a thread may be scheduled any
  time after its sleep.
\<close>

record system =
  isect :: Intersection
  sigs :: "TrafficSignal list"

datatype action =
    Tick nat real int
  | Dispatch string real real
  | Density string int
  | Pedestrian string bool
  | Stop nat

fun apply_action :: "action \<Rightarrow> system \<Rightarrow> system option" where
  "apply_action (Tick i now rnd) s =
     (if i < length (sigs s) \<and> 3 \<le> rnd \<and> rnd \<le> 8 then
        (case signal_step now rnd (isect s) (sigs s ! i) of
           None \<Rightarrow> None
         | Some (I1, t1) \<Rightarrow> Some \<lparr> isect = I1, sigs = (sigs s)[i := t1] \<rparr>)
      else None)"
| "apply_action (Dispatch direction created queued) s =
     Some (s\<lparr>isect := snd (add_emergency_vehicle (isect s) direction created queued)\<rparr>)"
| "apply_action (Density direction density) s =
     Some (s\<lparr>isect := update_traffic_density (isect s) direction density\<rparr>)"
| "apply_action (Pedestrian direction waiting) s =
     Some (s\<lparr>isect := set_pedestrian_waiting (isect s) direction waiting\<rparr>)"
| "apply_action (Stop i) s =
     (if i < length (sigs s) then Some (s\<lparr>sigs := (sigs s)[i := stop_signal (sigs s ! i)]\<rparr>)
      else None)"

fun exec :: "action list \<Rightarrow> system \<Rightarrow> system option" where
  "exec [] s = Some s"
| "exec (a # as) s = (case apply_action a s of None \<Rightarrow> None | Some s1 \<Rightarrow> exec as s1)"

text \<open>A system as the constructors leave it: a fresh intersection, every thread not yet started.\<close>

definition initial :: "system \<Rightarrow> bool" where
  "initial s \<longleftrightarrow>
     isect s = Intersection_init (intersection_id (isect s)) \<and>
     list_all (\<lambda>t. pc t = Start) (sigs s)"

text \<open>
  A thread holds the intersection from its \<open>enter_intersection\<close> to its \<open>exit_intersection\<close>.
  A thread that crashed in the step from \<open>GreenEnter\<close> (at \<open>time.sleep(green_time)\<close>) or from
  \<open>GreenHold\<close> (at \<open>time.sleep(self.yellow_time)\<close>) had entered and did not exit.
\<close>

fun holding :: "location \<Rightarrow> bool" where
  "holding (EmergencyHold r) = True"
| "holding GreenHold = True"
| "holding YellowHold = True"
| "holding (Crashed (GreenEnter g)) = True"
| "holding (Crashed GreenHold) = True"
| "holding l = False"

text \<open>Two directions conflict when one is in the other's table of conflicting directions.\<close>

definition conflicting :: "string \<Rightarrow> string \<Rightarrow> bool" where
  "conflicting a b \<longleftrightarrow> b \<in> set (get_conflicting_directions a)"

section \<open>\<open>class TrafficController\<close>\<close>

record TrafficController =
  intersections :: "Intersection list"
  signals :: "TrafficSignal list"
  ctl_running :: bool

text \<open>The decimal digits of a number, for \<open>f"Intersection-{i+1}"\<close>.\<close>

fun str_nat :: "nat \<Rightarrow> string" where
  "str_nat n =
     (if n < 10 then [''0123456789'' ! n]
      else str_nat (n div 10) @ [''0123456789'' ! (n mod 10)])"

declare str_nat.simps [simp del]

text \<open>
  \<open>__init__\<close>: for each index an intersection and its four signals with the default times
  (green 5.0, yellow 2.0); \<open>now\<close> is the clock reading the signals are created at.
\<close>

definition TrafficController_init :: "int \<Rightarrow> real \<Rightarrow> TrafficController" where
  "TrafficController_init num_intersections now =
     \<lparr> intersections =
         map (\<lambda>i. Intersection_init (''Intersection-'' @ str_nat (i + 1))) [0..<nat num_intersections],
       signals =
         concat (map (\<lambda>i. map (\<lambda>direction. TrafficSignal_init direction i 5.0 2.0 now)
                            [''NORTH'', ''SOUTH'', ''EAST'', ''WEST''])
                     [0..<nat num_intersections]),
       ctl_running = False \<rparr>"

text \<open>The intersection with index \<open>k\<close> of a controller together with its signals.\<close>

definition system_of :: "TrafficController \<Rightarrow> nat \<Rightarrow> system" where
  "system_of c k =
     \<lparr> isect = intersections c ! k,
       sigs = filter (\<lambda>t. sig_intersection t = k) (signals c) \<rparr>"

text \<open>The loop of \<open>get_system_stats\<close> over the intersections, from the totals so far.\<close>

fun add_stats :: "TrafficStats \<Rightarrow> Intersection list \<Rightarrow> TrafficStats" where
  "add_stats total_stats [] = total_stats"
| "add_stats total_stats (intersection # rest) =
     add_stats
       (total_stats\<lparr>
          total_cycles := total_cycles total_stats + total_cycles (stats intersection),
          total_wait_time := total_wait_time total_stats + total_wait_time (stats intersection),
          emergency_responses := emergency_responses total_stats + emergency_responses (stats intersection),
          deadlock_preventions := deadlock_preventions total_stats + deadlock_preventions (stats intersection),
          vehicles_passed := vehicles_passed total_stats + vehicles_passed (stats intersection)\<rparr>)
       rest"

text \<open>\<open>total_stats\<close> as it is when \<open>get_system_stats\<close> builds its result.\<close>

definition total_stats :: "TrafficController \<Rightarrow> TrafficStats" where
  "total_stats c =
     (let total = add_stats \<lparr> total_cycles = 0, total_wait_time = 0, emergency_responses = 0,
                              deadlock_preventions = 0, average_green_time = 0, vehicles_passed = 0 \<rparr>
                            (intersections c)
      in if total_cycles total > 0
         then total\<lparr>average_green_time := total_wait_time total / real_of_int (total_cycles total)\<rparr>
         else total)"

text \<open>
  The format \<open>:.2f\<close> of a number: the sign, the integer part, a point and two decimals,
  after rounding to the nearest hundredth. A number half way between two hundredths goes
  to the even one, as Python rounds the exact value of the float. A negative number keeps
  its sign when it rounds to zero (\<open>-0.00\<close>).
\<close>

definition round_half_even :: "real \<Rightarrow> int" where
  "round_half_even x =
     (let f = \<lfloor>x\<rfloor>;
          d = x - real_of_int f
      in if d < 1 / 2 then f
         else if 1 / 2 < d then f + 1
         else if even f then f else f + 1)"

definition format_2f :: "real \<Rightarrow> string" where
  "format_2f x =
     (let n = nat (round_half_even (\<bar>x\<bar> * 100))
      in (if x < 0 then ''-'' else []) @ str_nat (n div 100) @ ''.'' @
         [''0123456789'' ! (n div 10 mod 10), ''0123456789'' ! (n mod 10)])"

text \<open>
  The dictionary \<open>get_system_stats\<close> returns: four numbers and, under \<open>average_wait_time\<close>,
  the text \<open>f"{total_stats.average_green_time:.2f}s"\<close>.
\<close>

record SystemStats =
  stat_total_cycles :: int
  stat_average_wait_time :: string
  stat_emergency_responses :: int
  stat_deadlock_preventions :: int
  stat_vehicles_passed :: int

definition get_system_stats :: "TrafficController \<Rightarrow> SystemStats" where
  "get_system_stats c =
     (let total = total_stats c
      in \<lparr> stat_total_cycles = total_cycles total,
           stat_average_wait_time = format_2f (average_green_time total) @ ''s'',
           stat_emergency_responses = emergency_responses total,
           stat_deadlock_preventions = deadlock_preventions total,
           stat_vehicles_passed = vehicles_passed total \<rparr>)"

text \<open>
  The average wait time in the words of the specification: the summed wait time divided
  by the summed cycles, 0 if there are no cycles.
\<close>

definition spec_average_wait_time :: "TrafficController \<Rightarrow> real" where
  "spec_average_wait_time c =
     (if (\<Sum>I\<leftarrow>intersections c. total_cycles (stats I)) = 0 then 0
      else (\<Sum>I\<leftarrow>intersections c. total_wait_time (stats I)) /
           real_of_int (\<Sum>I\<leftarrow>intersections c. total_cycles (stats I)))"

text \<open>
  \<open>trigger_emergency\<close> and \<open>update_traffic_density\<close> of the controller. An exception of
  \<open>add_emergency_vehicle\<close> goes to the caller, with the intersection as the call left it.
\<close>

definition trigger_emergency ::
    "TrafficController \<Rightarrow> int \<Rightarrow> string \<Rightarrow> real \<Rightarrow> real \<Rightarrow> error option \<times> TrafficController" where
  "trigger_emergency c intersection_idx direction created queued =
     (if 0 \<le> intersection_idx \<and> intersection_idx < int (length (intersections c)) then
        (case add_emergency_vehicle (intersections c ! nat intersection_idx) direction created queued of
           (r, I1) \<Rightarrow> (r, c\<lparr>intersections := (intersections c)[nat intersection_idx := I1]\<rparr>))
      else (None, c))"

definition ctl_update_traffic_density ::
    "TrafficController \<Rightarrow> int \<Rightarrow> string \<Rightarrow> int \<Rightarrow> TrafficController" where
  "ctl_update_traffic_density c intersection_idx direction density =
     (if 0 \<le> intersection_idx \<and> intersection_idx < int (length (intersections c)) then
        c\<lparr>intersections := (intersections c)[nat intersection_idx :=
             update_traffic_density (intersections c ! nat intersection_idx) direction density]\<rparr>
      else c)"

section \<open>States and schedules used as examples\<close>

text \<open>The controller as the application creates it: one intersection, four signals.\<close>

definition default_system :: system where
  "default_system = system_of (TrafficController_init 1 0) 0"

text \<open>
  NORTH (thread 0) starts, is admitted and turns green. An emergency vehicle is dispatched
  for EAST. EAST (thread 2) starts and finds the request at the top of its loop.
\<close>

definition emergency_schedule :: "action list" where
  "emergency_schedule =
     [Tick 0 0.5 3, Tick 0 0.5 3, Tick 0 0.5 3, Tick 0 0.5 5,
      Dispatch ''EAST'' 1 1,
      Tick 2 1.2 3, Tick 2 1.2 3, Tick 2 1.2 3]"

text \<open>
  All densities are 0, so a green phase lasts 2.5 seconds, yellow 2 and red 2. NORTH
  (thread 0) is green from 0, 6.5, 13, 19.5 and 26, SOUTH (thread 1) from 2, 8.5, 15,
  21.5 and 28, each for 4.5 seconds until the end of yellow: at every moment one of them
  is active. EAST (thread 2) waits from 1 and WEST (thread 3) from 1.5. Of the polls of
  EAST and WEST only a few are in the schedule; the others, every 0.1 seconds, are denied
  in the same way. At 31.25 EAST has waited longer than 30 seconds.
\<close>

definition timeout_schedule :: "action list" where
  "timeout_schedule =
     [
      Tick 0 0 3, Tick 0 0 3, Tick 0 0 3, Tick 0 0 3, Tick 2 1 3, Tick 2 1 3,
      Tick 2 1 3, Tick 3 1.5 3, Tick 3 1.5 3, Tick 3 1.5 3, Tick 1 2 3, Tick 1 2 3,
      Tick 1 2 3, Tick 1 2 3, Tick 0 2.5 3, Tick 0 4.5 3, Tick 1 4.5 3, Tick 0 6.5 3,
      Tick 0 6.5 3, Tick 0 6.5 3, Tick 0 6.5 3, Tick 1 6.5 3, Tick 1 8.5 3, Tick 1 8.5 3,
      Tick 1 8.5 3, Tick 1 8.5 3, Tick 0 9 3, Tick 0 11 3, Tick 1 11 3, Tick 2 12 3,
      Tick 0 13 3, Tick 0 13 3, Tick 0 13 3, Tick 0 13 3, Tick 1 13 3, Tick 1 15 3,
      Tick 1 15 3, Tick 1 15 3, Tick 1 15 3, Tick 0 15.5 3, Tick 3 16 3, Tick 0 17.5 3,
      Tick 1 17.5 3, Tick 0 19.5 3, Tick 0 19.5 3, Tick 0 19.5 3, Tick 0 19.5 3, Tick 1 19.5 3,
      Tick 1 21.5 3, Tick 1 21.5 3, Tick 1 21.5 3, Tick 1 21.5 3, Tick 0 22 3, Tick 2 23 3,
      Tick 0 24 3, Tick 1 24 3, Tick 0 26 3, Tick 0 26 3, Tick 0 26 3, Tick 0 26 3,
      Tick 1 26 3, Tick 1 28 3, Tick 1 28 3, Tick 1 28 3, Tick 1 28 3, Tick 0 28.5 3,
      Tick 0 30.5 3, Tick 1 30.5 3, Tick 2 31.25 3, Tick 2 31.25 3]"

text \<open>NORTH and then SOUTH start, are admitted and turn green.\<close>

definition opposing_schedule :: "action list" where
  "opposing_schedule =
     [Tick 0 0.5 3, Tick 0 0.5 3, Tick 0 0.5 3, Tick 0 0.5 5,
      Tick 1 1 3, Tick 1 1 3, Tick 1 1 3, Tick 1 1 4]"

definition active_after :: "action list \<Rightarrow> system \<Rightarrow> string list option" where
  "active_after schedule s = map_option (active_directions \<circ> isect) (exec schedule s)"

text \<open>A signal for NORTH that was constructed with \<open>yellow_time = -1.0\<close>, on a fresh intersection.\<close>

definition negative_yellow_system :: system where
  "negative_yellow_system =
     \<lparr> isect = Intersection_init ''Intersection-1'',
       sigs = [TrafficSignal_init ''NORTH'' 0 5.0 (- 1.0) 0] \<rparr>"

text \<open>The thread starts, is admitted, turns green, and goes on to the yellow phase.\<close>

definition crash_schedule :: "action list" where
  "crash_schedule = [Tick 0 0 3, Tick 0 0 3, Tick 0 0 3, Tick 0 0 3, Tick 0 2.5 3]"

text \<open>What is looked at after a run: positions of the threads, active directions, tokens, log.\<close>

definition observe :: "system \<Rightarrow> location list \<times> string list \<times> nat \<times> event list" where
  "observe s =
     (map pc (sigs s), active_directions (isect s), green_semaphore (isect s),
      event_log (isect s))"


text \<open>The same with the second vehicle from SOUTH, and that state once the second is served.\<close>

definition north_then_south :: Intersection where
  "north_then_south =
     snd (add_emergency_vehicle
            (snd (add_emergency_vehicle (Intersection_init ''Intersection-1'') ''NORTH'' 1 1))
            ''SOUTH'' 2 2)"

definition south_served :: Intersection where
  "south_served =
     north_then_south\<lparr>vehicles :=
       (vehicles north_then_south)[1 := (vehicles north_then_south ! 1)\<lparr>handled := True\<rparr>]\<rparr>"

text \<open>A fresh intersection that EAST has entered.\<close>

definition east_active :: Intersection where
  "east_active = the (enter_intersection (Intersection_init ''Intersection-1'') ''EAST'' False)"

text \<open>A controller with two intersections that have run for a while.\<close>

definition two_intersections :: TrafficController where
  "two_intersections =
     \<lparr> intersections =
         [(Intersection_init ''Intersection-1'')\<lparr>stats :=
            \<lparr> total_cycles = 3, total_wait_time = 6, emergency_responses = 1,
              deadlock_preventions = 2, average_green_time = 0, vehicles_passed = 15 \<rparr>\<rparr>,
          (Intersection_init ''Intersection-2'')\<lparr>stats :=
            \<lparr> total_cycles = 1, total_wait_time = 2, emergency_responses = 0,
              deadlock_preventions = 5, average_green_time = 0, vehicles_passed = 4 \<rparr>\<rparr>],
       signals = [],
       ctl_running = True \<rparr>"

text \<open>A controller with one intersection that has run 3 cycles with a wait time of 1 in all.\<close>

definition three_cycles :: TrafficController where
  "three_cycles =
     \<lparr> intersections =
         [(Intersection_init ''Intersection-1'')\<lparr>stats :=
            \<lparr> total_cycles = 3, total_wait_time = 1, emergency_responses = 0,
              deadlock_preventions = 0, average_green_time = 0, vehicles_passed = 12 \<rparr>\<rparr>],
       signals = [],
       ctl_running = True \<rparr>"

section \<open>The effect of a step on semaphore and active directions\<close>

definition unchanged :: "Intersection \<Rightarrow> Intersection \<Rightarrow> bool" where
  "unchanged I I1 \<longleftrightarrow>
     active_directions I1 = active_directions I \<and> green_semaphore I1 = green_semaphore I"

definition entered :: "string \<Rightarrow> Intersection \<Rightarrow> Intersection \<Rightarrow> bool" where
  "entered d I I1 \<longleftrightarrow>
     0 < green_semaphore I \<and> green_semaphore I1 = green_semaphore I - 1 \<and>
     active_directions I1 = active_directions I @ [d]"

definition exited :: "string \<Rightarrow> Intersection \<Rightarrow> Intersection \<Rightarrow> bool" where
  "exited d I I1 \<longleftrightarrow>
     green_semaphore I1 = green_semaphore I + 1 \<and>
     active_directions I1 = remove1 d (active_directions I)"

text \<open>The directions of the threads that hold the intersection, with multiplicity.\<close>

definition holders :: "TrafficSignal list \<Rightarrow> string multiset" where
  "holders ts = image_mset sig_direction (filter_mset (\<lambda>t. holding (pc t)) (mset ts))"

text \<open>
  The invariant of a running system: the active directions are those of the threads that
  hold the intersection, and every one of them has taken one of the two tokens.
\<close>

definition sys_inv :: "system \<Rightarrow> bool" where
  "sys_inv s \<longleftrightarrow>
     mset (active_directions (isect s)) = holders (sigs s) \<and>
     green_semaphore (isect s) + length (active_directions (isect s)) = 2"

text \<open>
  What the counters and the table of densities satisfy in a running system: the cycles are
  not negative, each of the four directions has a density, and every density is in the
  range from 0 to 100.
\<close>

definition counters_ok :: "Intersection \<Rightarrow> bool" where
  "counters_ok I \<longleftrightarrow>
     0 \<le> total_cycles (stats I) \<and>
     list_all (\<lambda>direction. map_of (traffic_density I) direction \<noteq> None)
       [''NORTH'', ''SOUTH'', ''EAST'', ''WEST''] \<and>
     list_all (\<lambda>(direction, density). 0 \<le> density \<and> density \<le> 100) (traffic_density I)"

section \<open>Evaluation\<close>

lemmas heap_defs = put_def get_nowait_def heappush_def heappop_def siftup_def
  siftdown.simps siftup_loop.simps tuple_lt_def

lemmas isect_defs = Intersection_init_def log_event_def get_opposing_direction_def
  get_conflicting_directions_def has_emergency_vehicle_def add_emergency_vehicle_def
  can_proceed_def enter_intersection_def exit_intersection_def update_traffic_density_def
  get_adaptive_green_time_def set_pedestrian_waiting_def

lemmas signal_defs = TrafficSignal_init_def sleep_def on_exception_def handle_emergency_check_def
  handle_emergency_finish_def wait_for_turn_poll_def signal_step_def stop_signal_def

lemma default_system_eq:
  "default_system =
     \<lparr> isect = Intersection_init ''Intersection-1'',
       sigs = [TrafficSignal_init ''NORTH'' 0 5 2 0, TrafficSignal_init ''SOUTH'' 0 5 2 0,
               TrafficSignal_init ''EAST'' 0 5 2 0, TrafficSignal_init ''WEST'' 0 5 2 0] \<rparr>"
  by (simp add: default_system_def system_of_def TrafficController_init_def
      TrafficSignal_init_def str_nat.simps)

lemma initial_default_system: "initial default_system"
  by (simp add: default_system_eq initial_def Intersection_init_def TrafficSignal_init_def)

section \<open>The heap raises only on equal priorities\<close>

lemma tuple_lt_ok:
  assumes "inj_on fst S" "a \<in> S" "b \<in> S"
  shows "\<exists>r. tuple_lt a b = Inr r"
proof (cases "fst a = fst b")
  case True
  with assms have "a = b" by (auto dest: inj_onD)
  then have "tuple_lt a b = Inr False" by (simp add: tuple_lt_def)
  then show ?thesis by blast
next
  case False
  then have "tuple_lt a b = Inr (fst a < fst b)" by (simp add: tuple_lt_def)
  then show ?thesis by blast
qed

lemma nth_in: "set heap \<subseteq> S \<Longrightarrow> i < length heap \<Longrightarrow> heap ! i \<in> S"
  using nth_mem[of i heap] by blast

lemma set_update_in: "set heap \<subseteq> S \<Longrightarrow> x \<in> S \<Longrightarrow> set (heap[i := x]) \<subseteq> S"
  using set_update_subset_insert[of heap i x] by blast

lemma set_swap_in:
  "set heap \<subseteq> S \<Longrightarrow> i < length heap \<Longrightarrow> j < length heap \<Longrightarrow>
   set (heap[i := heap ! j, j := heap ! i]) \<subseteq> S"
  by (intro set_update_in nth_in)

lemma siftdown_ok:
  assumes "inj_on fst S" "set heap \<subseteq> S" "pos < length heap"
  shows "\<exists>h. siftdown heap startpos pos = (None, h) \<and> set h \<subseteq> S \<and> length h = length heap"
  using assms
proof (induction heap startpos pos rule: siftdown.induct)
  case (1 heap startpos pos)
  show ?case
  proof (cases "pos > startpos")
    case False
    with 1 show ?thesis by (subst siftdown.simps) simp
  next
    case True
    let ?pp = "(pos - 1) div 2"
    from True 1(4) have pp: "?pp < length heap" by simp
    from 1(3) pp have par: "heap ! ?pp \<in> S" by (rule nth_in)
    from 1(3,4) have new: "heap ! pos \<in> S" by (rule nth_in)
    from tuple_lt_ok[OF 1(2) new par] obtain r where r: "tuple_lt (heap ! pos) (heap ! ?pp) = Inr r"
      by blast
    show ?thesis
    proof (cases r)
      case False
      with True r 1 show ?thesis by (subst siftdown.simps) (simp add: Let_def)
    next
      case rt: True
      let ?h = "heap[?pp := heap ! pos, pos := heap ! ?pp]"
      have s: "set ?h \<subseteq> S" using 1(3) pp 1(4) by (rule set_swap_in)
      have "\<exists>h. siftdown ?h startpos ?pp = (None, h) \<and> set h \<subseteq> S \<and> length h = length ?h"
        using "1.IH"[OF True refl refl refl r rt 1(2) s] pp by simp
      with True r rt show ?thesis by (subst siftdown.simps) (simp add: Let_def)
    qed
  qed
qed

lemma siftup_loop_ok:
  assumes "inj_on fst S" "set heap \<subseteq> S" "endpos \<le> length heap" "pos < length heap"
  shows "\<exists>h p. siftup_loop heap endpos pos = (None, h, p) \<and> set h \<subseteq> S \<and>
               length h = length heap \<and> p < length heap"
  using assms
proof (induction heap endpos pos rule: siftup_loop.induct)
  case (1 heap endpos pos)
  show ?case
  proof (cases "pos < endpos div 2")
    case False
    with 1 show ?thesis by (subst siftup_loop.simps) simp
  next
    case True
    let ?c = "2 * pos + 1"
    let ?cmp = "if ?c + 1 < endpos then tuple_lt (heap ! ?c) (heap ! (?c + 1)) else Inr True"
    from True have cend: "?c < endpos" by arith
    have "\<exists>r. ?cmp = Inr r"
    proof (cases "?c + 1 < endpos")
      case False
      then have "?cmp = Inr True" by simp
      then show ?thesis by blast
    next
      case t: True
      with cend 1(4) have "?c < length heap" "?c + 1 < length heap" by simp_all
      with 1(3) have "heap ! ?c \<in> S" "heap ! (?c + 1) \<in> S"
        by (simp_all add: nth_in)
      from tuple_lt_ok[OF 1(2) this] obtain r0
        where "tuple_lt (heap ! ?c) (heap ! (?c + 1)) = Inr r0" by blast
      with t have "?cmp = Inr r0" by simp
      then show ?thesis by blast
    qed
    then obtain r where r: "?cmp = Inr r" by blast
    let ?c1 = "if r then ?c else ?c + 1"
    from cend r have c1: "?c1 < endpos" by (auto split: if_splits)
    with 1(4) have c1l: "?c1 < length heap" by simp
    let ?h = "heap[?c1 := heap ! pos, pos := heap ! ?c1]"
    have s: "set ?h \<subseteq> S" using 1(3) c1l 1(5) by (rule set_swap_in)
    have "\<exists>h p. siftup_loop ?h endpos ?c1 = (None, h, p) \<and>
                 set h \<subseteq> S \<and> length h = length ?h \<and> p < length ?h"
      using "1.IH"[OF True refl r refl 1(2) s] 1(4) c1l by simp
    then obtain h p where "siftup_loop ?h endpos ?c1 = (None, h, p)" "set h \<subseteq> S"
      "length h = length heap" "p < length heap" by auto
    moreover have "siftup_loop heap endpos pos = siftup_loop ?h endpos ?c1"
      using True r by (subst siftup_loop.simps) (auto simp: Let_def split: if_splits)
    ultimately show ?thesis by simp
  qed
qed

lemma siftup_ok:
  assumes "inj_on fst S" "set heap \<subseteq> S" "pos < length heap"
  shows "\<exists>h. siftup heap pos = (None, h) \<and> set h \<subseteq> S"
proof -
  from siftup_loop_ok[OF assms(1,2) order_refl assms(3)]
  obtain h p where l: "siftup_loop heap (length heap) pos = (None, h, p)"
    and hs: "set h \<subseteq> S" and len: "length h = length heap" and p: "p < length heap"
    by blast
  from p len have "p < length h" by simp
  from siftdown_ok[OF assms(1) hs this, of pos] l show ?thesis
    by (auto simp: siftup_def)
qed

lemma put_ok:
  assumes "inj_on fst S" "set q \<subseteq> S" "item \<in> S"
  shows "\<exists>h. put q item = (None, h) \<and> set h \<subseteq> S"
proof -
  have "set (q @ [item]) \<subseteq> S" using assms by simp
  from siftdown_ok[OF assms(1) this, of "length q" 0]
  show ?thesis by (auto simp: put_def heappush_def)
qed

lemma get_nowait_ok:
  assumes "inj_on fst (set q)" "q \<noteq> []"
  shows "\<exists>h. get_nowait q = (Inr (hd q), h) \<and> set h \<subseteq> set q"
proof (cases "butlast q = []")
  case True
  with assms(2) have "last q = hd q" by (cases q) (auto split: if_splits)
  with True assms show ?thesis by (simp add: get_nowait_def heappop_def)
next
  case False
  have sub: "set (butlast q) \<subseteq> set q" by (auto dest: in_set_butlastD)
  from assms(2) have "last q \<in> set q" by simp
  with sub have "set ((butlast q)[0 := last q]) \<subseteq> set q" by (rule set_update_in)
  moreover from False have "0 < length ((butlast q)[0 := last q])"
    by (cases "butlast q") simp_all
  ultimately obtain h where "siftup ((butlast q)[0 := last q]) 0 = (None, h)" "set h \<subseteq> set q"
    using siftup_ok[OF assms(1)] by blast
  moreover from False have "butlast q ! 0 = hd q"
    by (cases q) (auto split: if_splits)
  ultimately show ?thesis using assms(2) False
    by (simp add: get_nowait_def heappop_def Let_def)
qed

text \<open>
  The peek at a queue with pairwise distinct priorities: it looks at the first entry of
  the list and reports its object if that is not handled, and it keeps the entries.
\<close>

lemma has_emergency_vehicle_head:
  assumes "inj_on fst (set (emergency_queue I))" and "emergency_queue I \<noteq> []"
  shows "\<exists>q1. has_emergency_vehicle I =
               (if \<not> handled (vehicles I ! snd (hd (emergency_queue I)))
                then Inr (Some (snd (hd (emergency_queue I)))) else Inr None,
                I\<lparr>emergency_queue := q1\<rparr>) \<and>
              set q1 \<subseteq> set (emergency_queue I)"
proof -
  let ?q = "emergency_queue I"
  from get_nowait_ok[OF assms] obtain h where
    g: "get_nowait ?q = (Inr (hd ?q), h)" and h: "set h \<subseteq> set ?q" by blast
  from assms(2) have "hd ?q \<in> set ?q" by simp
  from put_ok[OF assms(1) h this] obtain h' where
    p: "put h (hd ?q) = (None, h')" and h': "set h' \<subseteq> set ?q" by blast
  from g p have "has_emergency_vehicle I =
      (if \<not> handled (vehicles I ! snd (hd ?q)) then Inr (Some (snd (hd ?q))) else Inr None,
       I\<lparr>emergency_queue := h'\<rparr>)"
    by (cases "hd ?q") (simp add: has_emergency_vehicle_def)
  with h' show ?thesis by blast
qed

lemma has_emergency_vehicle_returns:
  assumes "inj_on fst (set (emergency_queue I))"
  shows "\<exists>em I1. has_emergency_vehicle I = (Inr em, I1)"
proof (cases "emergency_queue I = []")
  case True
  then show ?thesis by (simp add: has_emergency_vehicle_def get_nowait_def)
next
  case False
  from has_emergency_vehicle_head[OF assms False] show ?thesis
    by (auto split: if_splits)
qed

section \<open>What the operations leave alone\<close>

lemma get_nowait_member:
  assumes "get_nowait q = (Inr x, q1)"
  shows "x \<in> set q"
proof -
  from assms have ne: "q \<noteq> []" and pop: "heappop q = (Inr x, q1)"
    by (auto simp: get_nowait_def split: if_splits)
  show ?thesis
  proof (cases "butlast q = []")
    case True
    with pop have "x = last q" by (simp add: heappop_def)
    with ne show ?thesis by simp
  next
    case False
    with pop have "x = butlast q ! 0"
      by (auto simp: heappop_def Let_def split: prod.splits option.splits)
    with False have "x \<in> set (butlast q)" by (simp add: hd_conv_nth[symmetric])
    then show ?thesis by (rule in_set_butlastD)
  qed
qed

lemma has_emergency_vehicle_frame:
  "has_emergency_vehicle I = (r, I1) \<Longrightarrow> I1 = I\<lparr>emergency_queue := emergency_queue I1\<rparr>"
  unfolding has_emergency_vehicle_def
  by (auto split: prod.splits sum.splits option.splits if_splits)

lemma has_emergency_vehicle_Some:
  assumes "has_emergency_vehicle I = (Inr (Some r), I1)"
  shows "\<exists>p. (p, r) \<in> set (emergency_queue I) \<and> \<not> handled (vehicles I ! r)"
  using assms unfolding has_emergency_vehicle_def
  by (auto split: prod.splits sum.splits option.splits if_splits dest: get_nowait_member)

lemma log_event_frame [simp]:
  "active_directions (log_event I ev) = active_directions I"
  "green_semaphore (log_event I ev) = green_semaphore I"
  "vehicles (log_event I ev) = vehicles I"
  "emergency_queue (log_event I ev) = emergency_queue I"
  "stats (log_event I ev) = stats I"
  "traffic_density (log_event I ev) = traffic_density I"
  by (simp_all add: log_event_def)

lemma can_proceed_frame:
  assumes "can_proceed I direction ce = (r, I1)"
  shows "active_directions I1 = active_directions I \<and> green_semaphore I1 = green_semaphore I \<and> vehicles I1 = vehicles I"
proof (cases ce)
  case True
  obtain r0 I0 where h: "has_emergency_vehicle I = (r0, I0)" by (cases "has_emergency_vehicle I")
  from has_emergency_vehicle_frame[OF h]
  have "active_directions I0 = active_directions I \<and> green_semaphore I0 = green_semaphore I \<and> vehicles I0 = vehicles I"
    by (metis Intersection.select_convs(2,3,4) Intersection.surjective Intersection.update_convs(5))
  with assms True h show ?thesis
    unfolding can_proceed_def by (auto split: sum.splits if_splits option.splits)
next
  case False
  with assms show ?thesis
    unfolding can_proceed_def by (auto split: if_splits)
qed


lemma enter_intersection_effect:
  assumes "enter_intersection I direction em = Some I1"
  shows "0 < green_semaphore I \<and> green_semaphore I1 = green_semaphore I - 1 \<and>
         active_directions I1 = active_directions I @ [direction]"
  using assms unfolding enter_intersection_def Let_def
  by (auto split: if_splits)

lemma exit_intersection_effect:
  "green_semaphore (exit_intersection I direction) = green_semaphore I + 1"
  "active_directions (exit_intersection I direction) = remove1 direction (active_directions I)"
  unfolding exit_intersection_def Let_def
  by (simp_all add: remove1_idem)

lemma handle_emergency_check_frame:
  assumes "handle_emergency_check I t = (r, I1)"
  shows "active_directions I1 = active_directions I \<and> green_semaphore I1 = green_semaphore I"
proof -
  obtain r0 I0 where h: "has_emergency_vehicle I = (r0, I0)" by (cases "has_emergency_vehicle I")
  have "active_directions I0 = active_directions I \<and> green_semaphore I0 = green_semaphore I"
    using has_emergency_vehicle_frame[OF h]
    by (metis Intersection.select_convs(2,3) Intersection.surjective Intersection.update_convs(5))
  with assms h show ?thesis
    unfolding handle_emergency_check_def by (auto split: sum.splits option.splits if_splits)
qed

lemma wait_for_turn_poll_frame:
  assumes "wait_for_turn_poll now I t sw = (r, I1)"
  shows "active_directions I1 = active_directions I \<and> green_semaphore I1 = green_semaphore I"
proof (cases "running t")
  case False
  with assms show ?thesis by (simp add: wait_for_turn_poll_def)
next
  case True
  obtain r0 I0 where h: "can_proceed I (sig_direction t) True = (r0, I0)"
    by (cases "can_proceed I (sig_direction t) True")
  from can_proceed_frame[OF h] assms h True show ?thesis
    unfolding wait_for_turn_poll_def Let_def by (auto split: sum.splits if_splits)
qed

lemma signal_step_effect:
  assumes "signal_step now rnd I t = Some (I1, t1)"
  shows "sig_direction t1 = sig_direction t \<and>
         (if holding (pc t1) = holding (pc t) then unchanged I I1
          else if holding (pc t1) then entered (sig_direction t) I I1
          else exited (sig_direction t) I I1)"
proof (cases "pc t")
  case Start
  with assms show ?thesis by (auto simp: signal_step_def unchanged_def)
next
  case LoopHead
  obtain r0 I0 where h: "handle_emergency_check I t = (r0, I0)"
    by (cases "handle_emergency_check I t")
  from handle_emergency_check_frame[OF h] assms h LoopHead show ?thesis
    by (auto simp: signal_step_def unchanged_def on_exception_def split: if_splits sum.splits option.splits)
next
  case (EmergencyEnter r)
  with assms show ?thesis
    by (auto simp: signal_step_def entered_def split: option.splits dest: enter_intersection_effect)
next
  case (EmergencyHold r)
  with assms show ?thesis
    by (auto simp: signal_step_def exited_def handle_emergency_finish_def exit_intersection_effect)
next
  case (WaitForTurn sw)
  obtain r0 I0 where h: "wait_for_turn_poll now I t sw = (r0, I0)"
    by (cases "wait_for_turn_poll now I t sw")
  from wait_for_turn_poll_frame[OF h] assms h WaitForTurn show ?thesis
    by (auto simp: signal_step_def unchanged_def on_exception_def split: if_splits sum.splits option.splits bool.splits)
next
  case (GreenEnter g)
  with assms show ?thesis
    by (auto simp: signal_step_def entered_def on_exception_def Let_def split: option.splits dest: enter_intersection_effect)
next
  case GreenHold
  with assms show ?thesis
    by (auto simp: signal_step_def unchanged_def on_exception_def Let_def split: option.splits)
next
  case YellowHold
  with assms show ?thesis
    by (auto simp: signal_step_def exited_def exit_intersection_effect)
next
  case RedHold
  with assms show ?thesis by (auto simp: signal_step_def unchanged_def)
next
  case Stopped
  with assms show ?thesis by (simp add: signal_step_def)
next
  case (Crashed l)
  with assms show ?thesis by (simp add: signal_step_def)
qed


lemma holders_update:
  assumes "i < length ts"
  shows "\<exists>M. holders ts = (if holding (pc (ts ! i)) then add_mset (sig_direction (ts ! i)) M else M) \<and>
             holders (ts[i := t1]) = (if holding (pc t1) then add_mset (sig_direction t1) M else M)"
proof -
  let ?R = "mset ts - {#ts ! i#}"
  have a: "mset ts = add_mset (ts ! i) ?R" using assms by simp
  have b: "mset (ts[i := t1]) = add_mset t1 ?R" using assms by (simp add: mset_update)
  let ?M = "image_mset sig_direction (filter_mset (\<lambda>t. holding (pc t)) ?R)"
  have "holders ts = (if holding (pc (ts ! i)) then add_mset (sig_direction (ts ! i)) ?M else ?M)"
    unfolding holders_def by (subst a) simp
  moreover have "holders (ts[i := t1]) = (if holding (pc t1) then add_mset (sig_direction t1) ?M else ?M)"
    unfolding holders_def by (subst b) simp
  ultimately show ?thesis by blast
qed

lemma inv_tick:
  assumes "sys_inv s" and "i < length (sigs s)"
    and "signal_step now rnd (isect s) (sigs s ! i) = Some (I1, t1)"
  shows "sys_inv \<lparr> isect = I1, sigs = (sigs s)[i := t1] \<rparr>"
proof -
  let ?t = "sigs s ! i"
  let ?I = "isect s"
  from signal_step_effect[OF assms(3)]
  have dir: "sig_direction t1 = sig_direction ?t"
    and eff: "if holding (pc t1) = holding (pc ?t) then unchanged ?I I1
              else if holding (pc t1) then entered (sig_direction ?t) ?I I1
              else exited (sig_direction ?t) ?I I1"
    by simp_all
  from holders_update[OF assms(2), of t1] obtain M where
    h0: "holders (sigs s) = (if holding (pc ?t) then add_mset (sig_direction ?t) M else M)" and
    h1: "holders ((sigs s)[i := t1]) = (if holding (pc t1) then add_mset (sig_direction t1) M else M)"
    by blast
  from assms(1) have m: "mset (active_directions ?I) = holders (sigs s)"
    and n: "green_semaphore ?I + length (active_directions ?I) = 2"
    by (simp_all add: sys_inv_def)
  consider (same) "holding (pc t1) = holding (pc ?t)"
    | (enter) "\<not> holding (pc ?t)" "holding (pc t1)"
    | (exit) "holding (pc ?t)" "\<not> holding (pc t1)"
    by blast
  then show ?thesis
  proof cases
    case same
    with eff have "unchanged ?I I1" by simp
    with same m n h0 h1 dir show ?thesis by (simp add: sys_inv_def unchanged_def)
  next
    case enter
    with eff have "entered (sig_direction ?t) ?I I1" by simp
    with enter m n h0 h1 dir show ?thesis by (simp add: sys_inv_def entered_def)
  next
    case exit
    with eff have e: "exited (sig_direction ?t) ?I I1" by simp
    from exit m h0 have mem: "sig_direction ?t \<in> set (active_directions ?I)"
      by (metis mset_eq_setD union_single_eq_member set_mset_mset)
    then have len: "length (remove1 (sig_direction ?t) (active_directions ?I)) = length (active_directions ?I) - 1"
      by (simp add: length_remove1)
    from mem have pos: "0 < length (active_directions ?I)" by (cases "active_directions ?I") auto
    from e have a1: "active_directions I1 = remove1 (sig_direction ?t) (active_directions ?I)"
      and g1: "green_semaphore I1 = green_semaphore ?I + 1"
      by (simp_all add: exited_def)
    from exit m h0 h1 have "mset (active_directions I1) = holders ((sigs s)[i := t1])"
      by (simp add: a1)
    moreover from n len pos have "green_semaphore I1 + length (active_directions I1) = 2"
      unfolding a1 g1 by arith
    ultimately show ?thesis by (simp add: sys_inv_def)
  qed
qed

lemma holders_stop:
  assumes "i < length ts"
  shows "holders (ts[i := stop_signal (ts ! i)]) = holders ts"
proof -
  from holders_update[OF assms, of "stop_signal (ts ! i)"] show ?thesis
    by (auto simp: stop_signal_def)
qed

lemma add_emergency_vehicle_frame:
  "active_directions (snd (add_emergency_vehicle I d c q)) = active_directions I"
  "green_semaphore (snd (add_emergency_vehicle I d c q)) = green_semaphore I"
  unfolding add_emergency_vehicle_def Let_def by (auto split: prod.splits option.splits)

lemma inv_apply_action:
  assumes "sys_inv s" and "apply_action a s = Some s1"
  shows "sys_inv s1"
proof (cases a)
  case (Tick i now rnd)
  with assms(2) obtain I1 t1 where "i < length (sigs s)"
    and "signal_step now rnd (isect s) (sigs s ! i) = Some (I1, t1)"
    and "s1 = \<lparr> isect = I1, sigs = (sigs s)[i := t1] \<rparr>"
    by (auto split: if_splits option.splits)
  with inv_tick[OF assms(1)] show ?thesis by blast
next
  case (Dispatch d c q)
  with assms show ?thesis by (auto simp: sys_inv_def add_emergency_vehicle_frame)
next
  case (Density d v)
  with assms show ?thesis by (auto simp: sys_inv_def update_traffic_density_def)
next
  case (Pedestrian d w)
  with assms show ?thesis by (auto simp: sys_inv_def set_pedestrian_waiting_def Let_def)
next
  case (Stop i)
  with assms show ?thesis by (auto simp: sys_inv_def holders_stop split: if_splits)
qed

lemma inv_exec: "sys_inv s \<Longrightarrow> exec as s = Some s1 \<Longrightarrow> sys_inv s1"
proof (induction as arbitrary: s)
  case Nil
  then show ?case by simp
next
  case (Cons a as)
  then show ?case by (auto split: option.splits dest: inv_apply_action)
qed

lemma inv_initial: "initial s \<Longrightarrow> sys_inv s"
proof -
  assume a: "initial s"
  then have "\<forall>t \<in> set (sigs s). \<not> holding (pc t)" by (auto simp: initial_def list_all_iff)
  then have "filter_mset (\<lambda>t. holding (pc t)) (mset (sigs s)) = {#}"
    by simp
  moreover from a have "active_directions (isect s) = []" "green_semaphore (isect s) = 2"
    by (metis initial_def Intersection_init_def Intersection.select_convs(2))
       (metis a initial_def Intersection_init_def Intersection.select_convs(3))
  ultimately show ?thesis by (simp add: sys_inv_def holders_def)
qed

lemma can_proceed_True_no_conflict:
  assumes "can_proceed I direction ce = (Inr True, I1)"
  shows "\<not> conflict_active (get_conflicting_directions direction) (active_directions I)"
proof -
  obtain r0 I0 where h: "(if ce then has_emergency_vehicle I else (Inr None, I)) = (r0, I0)"
    by (cases "if ce then has_emergency_vehicle I else (Inr None, I)")
  have "active_directions I0 = active_directions I"
  proof (cases ce)
    case True
    with h have "has_emergency_vehicle I = (r0, I0)" by simp
    from has_emergency_vehicle_frame[OF this] show ?thesis
      by (metis Intersection.select_convs(2) Intersection.surjective Intersection.update_convs(5))
  next
    case False
    with h show ?thesis by simp
  qed
  with assms h show ?thesis
    unfolding can_proceed_def by (auto split: sum.splits if_splits option.splits)
qed

lemma conflict_active_iff: "conflict_active cs active \<longleftrightarrow> (\<exists>c \<in> set cs. c \<in> set active)"
  by (induction cs) auto


text \<open>
  A thread leaves the loop through the stop flag only where the flag is tested, at the head
  of the loop and in \<open>wait_for_turn\<close>, and there it holds nothing. So once no thread is
  between its \<open>enter_intersection\<close> and its \<open>exit_intersection\<close> or crashed in between,
  for instance when all have stopped, no direction is active and both tokens are back.
\<close>

lemma stopped_only_where_tested:
  assumes "signal_step now rnd I t = Some (I1, t1)" and "pc t1 = Stopped"
  shows "pc t = LoopHead \<or> (\<exists>start_wait. pc t = WaitForTurn start_wait)"
  using assms
  by (cases "pc t")
     (auto simp: signal_step_def on_exception_def Let_def
        split: if_splits prod.splits sum.splits option.splits bool.splits)

lemma stopped_threads_hold_nothing:
  assumes "initial s0" and "exec schedule s0 = Some s"
    and "list_all (\<lambda>t. \<not> holding (pc t)) (sigs s)"
  shows "active_directions (isect s) = [] \<and> green_semaphore (isect s) = 2"
proof -
  from assms(1,2) have i: "sys_inv s" by (blast intro: inv_exec inv_initial)
  from assms(3) have h: "holders (sigs s) = {#}"
    by (simp add: holders_def list_all_iff)
  from i have m: "mset (active_directions (isect s)) = holders (sigs s)"
    and n: "green_semaphore (isect s) + length (active_directions (isect s)) = 2"
    by (simp_all add: sys_inv_def)
  from m h have a: "active_directions (isect s) = []" by simp
  from n a show ?thesis by simp
qed

section \<open>Counters and densities in a running system\<close>

lemma list_all_update:
  "list_all (\<lambda>(k, v). P v) al \<Longrightarrow> P v \<Longrightarrow> list_all (\<lambda>(k, v). P v) (AList.update k v al)"
  by (induction al) auto

lemma counters_ok_queue [simp]: "counters_ok (I\<lparr>emergency_queue := q\<rparr>) = counters_ok I"
  by (simp add: counters_ok_def)

lemma counters_ok_log [simp]: "counters_ok (log_event I ev) = counters_ok I"
  by (simp add: counters_ok_def log_event_def)

lemma counters_ok_has_emergency_vehicle:
  "has_emergency_vehicle I = (r, I1) \<Longrightarrow> counters_ok I1 = counters_ok I"
  by (drule has_emergency_vehicle_frame) (metis counters_ok_queue)

lemma counters_ok_can_proceed:
  assumes "can_proceed I direction ce = (r, I1)" "counters_ok I"
  shows "counters_ok I1"
proof -
  obtain r0 I0 where h: "(if ce then has_emergency_vehicle I else (Inr None, I)) = (r0, I0)"
    by (cases "if ce then has_emergency_vehicle I else (Inr None, I)")
  with assms(2) have "counters_ok I0"
    by (auto split: if_splits simp: counters_ok_has_emergency_vehicle)
  with assms(1) h show ?thesis
    unfolding can_proceed_def
    by (auto split: sum.splits if_splits option.splits simp: counters_ok_def)
qed

lemma counters_ok_enter:
  "enter_intersection I direction em = Some I1 \<Longrightarrow> counters_ok I \<Longrightarrow> counters_ok I1"
  unfolding enter_intersection_def Let_def
  by (auto split: if_splits simp: counters_ok_def log_event_def)

lemma counters_ok_exit: "counters_ok I \<Longrightarrow> counters_ok (exit_intersection I direction)"
  unfolding exit_intersection_def Let_def
  by (auto simp: counters_ok_def log_event_def)

lemma counters_ok_update: "counters_ok I \<Longrightarrow> counters_ok (update_traffic_density I direction density)"
  unfolding update_traffic_density_def counters_ok_def
  by (auto simp: update_conv' list_all_update)

lemma counters_ok_add:
  "counters_ok I \<Longrightarrow> counters_ok (snd (add_emergency_vehicle I direction c q))"
  unfolding add_emergency_vehicle_def Let_def
  by (auto split: prod.splits option.splits simp: counters_ok_def log_event_def)

lemma counters_ok_signal_step:
  assumes "signal_step now rnd I t = Some (I1, t1)" "counters_ok I"
  shows "counters_ok I1"
proof (cases "pc t")
  case LoopHead
  obtain r0 I0 where h: "has_emergency_vehicle I = (r0, I0)" by (cases "has_emergency_vehicle I")
  with assms(2) have "counters_ok I0" by (simp add: counters_ok_has_emergency_vehicle)
  with assms h LoopHead show ?thesis
    by (auto simp: signal_step_def handle_emergency_check_def on_exception_def
        split: if_splits sum.splits option.splits)
next
  case (WaitForTurn sw)
  obtain r0 I0 where h: "can_proceed I (sig_direction t) True = (r0, I0)"
    by (cases "can_proceed I (sig_direction t) True")
  from counters_ok_can_proceed[OF h assms(2)] have ok: "counters_ok I0" .
  then have ok2: "counters_ok (I0\<lparr>stats := (stats I0)\<lparr>total_wait_time := w\<rparr>\<rparr>)" for w
    by (simp add: counters_ok_def)
  from assms(1) h WaitForTurn ok ok2 assms(2) show ?thesis
    by (auto simp: signal_step_def wait_for_turn_poll_def on_exception_def Let_def
        split: if_splits sum.splits option.splits bool.splits)
next
  case (GreenEnter g)
  have ok2: "counters_ok J \<Longrightarrow> counters_ok (J\<lparr>stats := (stats J)\<lparr>vehicles_passed := w\<rparr>\<rparr>)" for J w
    by (simp add: counters_ok_def)
  from assms GreenEnter show ?thesis
    by (auto simp: signal_step_def on_exception_def Let_def ok2
        split: option.splits dest: counters_ok_enter)
next
  case (EmergencyEnter r)
  with assms show ?thesis
    by (auto simp: signal_step_def split: option.splits dest: counters_ok_enter)
next
  case (EmergencyHold r)
  have "counters_ok (I\<lparr>vehicles := v\<rparr>)" for v using assms(2) by (simp add: counters_ok_def)
  with assms EmergencyHold show ?thesis
    by (auto simp: signal_step_def handle_emergency_finish_def counters_ok_exit)
qed (use assms in \<open>auto simp: signal_step_def on_exception_def Let_def counters_ok_exit split: option.splits\<close>)

lemma counters_ok_pedestrian:
  "counters_ok I \<Longrightarrow> counters_ok (set_pedestrian_waiting I direction waiting)"
  by (simp add: set_pedestrian_waiting_def counters_ok_def log_event_def Let_def)

lemma counters_ok_apply_action:
  assumes "apply_action a s = Some s1" "counters_ok (isect s)"
  shows "counters_ok (isect s1)"
  using assms
  by (cases a)
     (auto split: if_splits option.splits
        simp: counters_ok_update counters_ok_add counters_ok_pedestrian
        dest: counters_ok_signal_step)

lemma counters_ok_exec:
  "exec as s = Some s1 \<Longrightarrow> counters_ok (isect s) \<Longrightarrow> counters_ok (isect s1)"
proof (induction as arbitrary: s)
  case Nil
  then show ?case by simp
next
  case (Cons a as)
  then show ?case by (auto split: option.splits dest: counters_ok_apply_action)
qed

lemma counters_ok_initial: "initial s \<Longrightarrow> counters_ok (isect s)"
proof -
  assume "initial s"
  then have "isect s = Intersection_init (intersection_id (isect s))" by (simp add: initial_def)
  moreover have "counters_ok (Intersection_init ident)" for ident
    by (simp add: counters_ok_def Intersection_init_def)
  ultimately show ?thesis by metis
qed

lemma reachable_counters_ok:
  "initial s0 \<Longrightarrow> exec as s0 = Some s \<Longrightarrow> counters_ok (isect s)"
  by (blast intro: counters_ok_exec counters_ok_initial)

section \<open>Support for the statistics\<close>

lemma add_stats_fields:
  "total_cycles (add_stats acc xs) = total_cycles acc + (\<Sum>I\<leftarrow>xs. total_cycles (stats I))"
  "total_wait_time (add_stats acc xs) = total_wait_time acc + (\<Sum>I\<leftarrow>xs. total_wait_time (stats I))"
  "emergency_responses (add_stats acc xs) =
     emergency_responses acc + (\<Sum>I\<leftarrow>xs. emergency_responses (stats I))"
  "deadlock_preventions (add_stats acc xs) =
     deadlock_preventions acc + (\<Sum>I\<leftarrow>xs. deadlock_preventions (stats I))"
  "vehicles_passed (add_stats acc xs) = vehicles_passed acc + (\<Sum>I\<leftarrow>xs. vehicles_passed (stats I))"
  "average_green_time (add_stats acc xs) = average_green_time acc"
  by (induction xs arbitrary: acc; simp)+

lemma round_half_even_close: "\<bar>real_of_int (round_half_even x) - x\<bar> \<le> 1 / 2"
proof -
  have "real_of_int \<lfloor>x\<rfloor> \<le> x" and "x < real_of_int \<lfloor>x\<rfloor> + 1" by linarith+
  then show ?thesis by (auto simp: round_half_even_def Let_def)
qed

lemma sum_list_nonneg_int: "\<forall>x \<in> set xs. 0 \<le> f x \<Longrightarrow> 0 \<le> (\<Sum>x\<leftarrow>xs. (f x :: int))"
  by (induction xs) auto

section \<open>The claims\<close>

subsection \<open>C1: mutual exclusion\<close>

text \<open>
  Claim C1 says that in every reachable state of an intersection \<open>active_directions\<close> holds
  at most two directions and never two that conflict, also when a direction is admitted
  after the starvation timeout.

  What holds in every state that a run reaches from a system as constructed: there are at
  most two active directions (each holds one of the two tokens of the semaphore). And in
  any state, when \<open>can_proceed\<close> returns true for a direction, no direction that conflicts
  with it is active in that state. Nothing more: a direction is appended by
  \<open>enter_intersection\<close>, which does not look at conflicts, and \<open>run\<close> calls it after a timeout
  of \<open>wait_for_turn\<close>, \<open>handle_emergency\<close> calls it without asking \<open>can_proceed\<close>, and other
  threads run between \<open>can_proceed\<close> and \<open>enter_intersection\<close>.
\<close>

theorem active_directions_at_most_two:
  assumes "initial s0" and "exec schedule s0 = Some s"
  shows "length (active_directions (isect s)) \<le> 2 \<and>
         (\<forall>direction check I1.
            can_proceed (isect s) direction check = (Inr True, I1) \<longrightarrow>
            \<not> conflict_active (get_conflicting_directions direction) (active_directions (isect s)))"
proof -
  from assms have "sys_inv s" by (blast intro: inv_exec inv_initial)
  then have "green_semaphore (isect s) + length (active_directions (isect s)) = 2"
    by (simp add: sys_inv_def)
  then have "length (active_directions (isect s)) \<le> 2" by arith
  then show ?thesis by (blast dest: can_proceed_True_no_conflict)
qed

text \<open>
  Witness: after NORTH and SOUTH have both entered, two directions are active, and
  \<open>can_proceed\<close> is true for NORTH because its opposite is active.
\<close>

theorem active_directions_at_most_two_witness:
  "initial default_system \<and>
   exec opposing_schedule default_system \<noteq> None \<and>
   active_after opposing_schedule default_system = Some [''NORTH'', ''SOUTH''] \<and>
   length (active_directions (isect (the (exec opposing_schedule default_system)))) \<le> 2 \<and>
   fst (can_proceed (isect (the (exec opposing_schedule default_system))) ''NORTH'' True) = Inr True \<and>
   \<not> conflict_active (get_conflicting_directions ''NORTH'')
        (active_directions (isect (the (exec opposing_schedule default_system))))"
proof -
  let ?s = "the (exec opposing_schedule default_system)"
  have run: "exec opposing_schedule default_system \<noteq> None"
    by (simp add: default_system_eq opposing_schedule_def isect_defs signal_defs heap_defs Let_def)
  then have e: "exec opposing_schedule default_system = Some ?s" by simp
  have act: "active_after opposing_schedule default_system = Some [''NORTH'', ''SOUTH'']"
    by (simp add: active_after_def default_system_eq opposing_schedule_def isect_defs
        signal_defs heap_defs Let_def)
  with e have a: "active_directions (isect ?s) = [''NORTH'', ''SOUTH'']"
    by (auto simp: active_after_def)
  have q: "emergency_queue (isect ?s) = []"
    by (simp add: default_system_eq opposing_schedule_def isect_defs signal_defs heap_defs Let_def)
  have cf: "fst (can_proceed (isect ?s) ''NORTH'' True) = Inr True"
    by (simp add: can_proceed_def has_emergency_vehicle_def get_nowait_def q a
        get_conflicting_directions_def get_opposing_direction_def)
  then have c: "can_proceed (isect ?s) ''NORTH'' True =
                  (Inr True, snd (can_proceed (isect ?s) ''NORTH'' True))"
    by (simp add: prod_eq_iff)
  from active_directions_at_most_two [OF initial_default_system e] c
  have "length (active_directions (isect ?s)) \<le> 2"
    and "\<not> conflict_active (get_conflicting_directions ''NORTH'') (active_directions (isect ?s))"
    by blast+
  with run act cf initial_default_system show ?thesis by blast
qed

text \<open>
  Counterexample to C1 as stated: NORTH is green when an emergency vehicle is dispatched
  for EAST; the thread of EAST finds the request in \<open>handle_emergency\<close> and enters. NORTH
  and EAST are then active together, and EAST is in the table of directions that conflict
  with NORTH.
\<close>

theorem conflicting_pair_active_counterexample:
  "initial default_system \<and>
   active_after emergency_schedule default_system = Some [''NORTH'', ''EAST''] \<and>
   conflicting ''NORTH'' ''EAST''"
proof -
  have "active_after emergency_schedule default_system = Some [''NORTH'', ''EAST'']"
    by (simp add: active_after_def default_system_eq emergency_schedule_def
        isect_defs signal_defs heap_defs Let_def)
  moreover have "conflicting ''NORTH'' ''EAST''"
    by (simp add: conflicting_def get_conflicting_directions_def)
  ultimately show ?thesis using initial_default_system by blast
qed

text \<open>
  The same on the path the claim names: EAST has been denied for more than 30 seconds
  while NORTH and SOUTH took turns, \<open>wait_for_turn\<close> returns true at the timeout, and EAST
  enters next to SOUTH.
\<close>

lemma conflicting_pair_active_after_timeout:
  "active_after timeout_schedule default_system = Some [''SOUTH'', ''EAST''] \<and>
   conflicting ''SOUTH'' ''EAST''"
  by (simp add: active_after_def default_system_eq timeout_schedule_def
      conflicting_def isect_defs signal_defs heap_defs Let_def)

subsection \<open>C2: emergency precedence\<close>




subsection \<open>C3: the request that \<open>has_emergency_vehicle\<close> returns\<close>

text \<open>
  Claim C3 says that \<open>has_emergency_vehicle\<close> returns the earliest request that is not
  handled, or none if there is no such request, and leaves the queue as it is.

  The code at the input of two requests, NORTH at time 1 and SOUTH at time 2, both not
  handled: the priority is the negated clock reading, so the later request is the head of
  the heap, and the call returns reference 1, the request of SOUTH with time 2. Once that
  one is handled the call returns none, although the request of NORTH is still waiting.
\<close>

theorem latest_request_is_returned:
  "map ev_direction (vehicles north_then_south) = [''NORTH'', ''SOUTH''] \<and>
   map timestamp (vehicles north_then_south) = [1, 2] \<and>
   map handled (vehicles north_then_south) = [False, False] \<and>
   emergency_queue north_then_south = [(- 2, 1), (- 1, 0)] \<and>
   fst (has_emergency_vehicle north_then_south) = Inr (Some 1) \<and>
   map handled (vehicles south_served) = [False, True] \<and>
   fst (has_emergency_vehicle south_served) = Inr None"
  by (simp add: south_served_def north_then_south_def isect_defs heap_defs Let_def)

subsection \<open>C4: release after admission\<close>

text \<open>
  Claim C4 says that every \<open>enter_intersection\<close> of a thread is followed by exactly one
  \<open>exit_intersection\<close> for the same direction before the loop of \<open>run\<close> ends, on every way
  out of the loop, the handler for an unexpected failure included.

  The code at the input of a signal for NORTH whose \<open>yellow_time\<close> is \<open>-1.0\<close>: the thread
  enters, holds green, logs yellow, \<open>time.sleep(self.yellow_time)\<close> raises \<open>ValueError\<close>,
  the handler logs the error and leaves the loop. The thread has ended (it takes no
  further step), NORTH is still in \<open>active_directions\<close>, one of the two tokens is gone, and
  the log has the entry of \<open>enter_intersection\<close> and none of \<open>exit_intersection\<close>.
  The other ways out of the loop do release (\<open>stopped_threads_hold_nothing\<close>).
\<close>

theorem failure_path_leaves_direction_active:
  "initial negative_yellow_system \<and>
   map_option observe (exec crash_schedule negative_yellow_system) =
     Some ([Crashed GreenHold], [''NORTH''], 1,
           [IsNow ''NORTH'' ''GREEN'', IsNowYellow ''NORTH'', ErrorIn ''NORTH'' ValueError]) \<and>
   exec (crash_schedule @ [Tick 0 10 3]) negative_yellow_system = None"
  by (simp add: negative_yellow_system_def crash_schedule_def observe_def initial_def
      isect_defs signal_defs heap_defs Let_def)

subsection \<open>C5: denial on a conflict\<close>

text \<open>
  Claim C5 says that when no unhandled emergency for another direction exists and a
  conflicting direction is active, \<open>can_proceed\<close> returns false and adds exactly one to
  \<open>deadlock_preventions\<close>; its example is a check for WEST while EAST is active.

  The rule holds as stated, for the call with and without the emergency check. The
  hypothesis that the peek at the queue returns is there because the heap raises
  \<open>TypeError\<close> when it has to order two requests of equal priority; it never does
  otherwise (\<open>has_emergency_vehicle_returns\<close>). The example is not an instance of the rule:
  WEST is the direction opposite to EAST, not one that conflicts with it. An instance is a
  check for NORTH while EAST is active.
\<close>

theorem can_proceed_conflict_denied:
  assumes "fst (has_emergency_vehicle I) = Inr em"
    and "\<forall>(p, r) \<in> set (emergency_queue I).
           handled (vehicles I ! r) \<or> ev_direction (vehicles I ! r) = direction"
    and "\<exists>c \<in> set (get_conflicting_directions direction). c \<in> set (active_directions I)"
  shows "fst (can_proceed I direction check) = Inr False \<and>
         deadlock_preventions (stats (snd (can_proceed I direction check))) =
           deadlock_preventions (stats I) + 1 \<and>
         active_directions (snd (can_proceed I direction check)) = active_directions I"
proof -
  from assms(3) have c: "conflict_active (get_conflicting_directions direction) (active_directions I)"
    by (simp add: conflict_active_iff)
  show ?thesis
  proof (cases check)
    case False
    with c show ?thesis by (simp add: can_proceed_def)
  next
    case True
    obtain I1 where h: "has_emergency_vehicle I = (Inr em, I1)"
      using assms(1) by (cases "has_emergency_vehicle I") simp
    from has_emergency_vehicle_frame [OF h]
    have f: "I1 = I\<lparr>emergency_queue := emergency_queue I1\<rparr>" .
    have v: "vehicles I1 = vehicles I" by (subst f) simp
    have a: "active_directions I1 = active_directions I" by (subst f) simp
    have st: "stats I1 = stats I" by (subst f) simp
    have own: "\<not> (case em of Some r \<Rightarrow> ev_direction (vehicles I1 ! r) \<noteq> direction | None \<Rightarrow> False)"
    proof (cases em)
      case None
      then show ?thesis by simp
    next
      case (Some r)
      with h have "has_emergency_vehicle I = (Inr (Some r), I1)" by simp
      from has_emergency_vehicle_Some [OF this] assms(2) Some v show ?thesis by auto
    qed
    from True h own c a st show ?thesis by (simp add: can_proceed_def)
  qed
qed

text \<open>
  Witness: EAST is active, there is no emergency; the check for NORTH is denied and the
  counter goes from 0 to 1.
\<close>

theorem can_proceed_conflict_denied_witness:
  "fst (has_emergency_vehicle east_active) = Inr None \<and>
   emergency_queue east_active = [] \<and>
   active_directions east_active = [''EAST''] \<and>
   ''EAST'' \<in> set (get_conflicting_directions ''NORTH'') \<and>
   fst (can_proceed east_active ''NORTH'' True) = Inr False \<and>
   deadlock_preventions (stats east_active) = 0 \<and>
   deadlock_preventions (stats (snd (can_proceed east_active ''NORTH'' True))) = 1"
proof -
  have p: "fst (has_emergency_vehicle east_active) = Inr None"
    and q: "emergency_queue east_active = []"
    and a: "active_directions east_active = [''EAST'']"
    and z: "deadlock_preventions (stats east_active) = 0"
    by (simp_all add: east_active_def isect_defs heap_defs Let_def)
  have c: "''EAST'' \<in> set (get_conflicting_directions ''NORTH'')"
    by (simp add: get_conflicting_directions_def)
  have "\<forall>(p, r) \<in> set (emergency_queue east_active).
          handled (vehicles east_active ! r) \<or> ev_direction (vehicles east_active ! r) = ''NORTH''"
    by (simp add: q)
  moreover have "\<exists>c \<in> set (get_conflicting_directions ''NORTH''). c \<in> set (active_directions east_active)"
    using c a by auto
  ultimately show ?thesis
    using can_proceed_conflict_denied [OF p, of "''NORTH''" True] p q a c z by simp
qed

text \<open>
  Counterexample to the example of C5: with EAST active and no emergency, the check for
  WEST returns true and the counter stays at 0.
\<close>

theorem west_admitted_beside_east_counterexample:
  "enter_intersection (Intersection_init ''Intersection-1'') ''EAST'' False = Some east_active \<and>
   active_directions east_active = [''EAST''] \<and>
   emergency_queue east_active = [] \<and>
   fst (can_proceed east_active ''WEST'' True) = Inr True \<and>
   deadlock_preventions (stats east_active) = 0 \<and>
   deadlock_preventions (stats (snd (can_proceed east_active ''WEST'' True))) = 0"
  by (simp add: east_active_def isect_defs heap_defs Let_def)

subsection \<open>C6: the adaptive green time\<close>

text \<open>
  Claim C6: for every direction and base time, \<open>get_adaptive_green_time\<close> is
  \<open>base * (0.5 + density / 100)\<close> for the density stored for the direction, and the call
  changes nothing; with base 5 it is 7.5 at density 100 and 2.5 at density 0.

  The function reads the table of densities and returns a number; it has no state to
  return. A direction has a stored density when it is a key of the table, which the four
  directions are in every state of a running system (\<open>reachable_counters_ok\<close>); for
  another string the lookup raises \<open>KeyError\<close>.
\<close>

theorem get_adaptive_green_time_formula:
  "(map_of (traffic_density I) direction = Some density \<longrightarrow>
      get_adaptive_green_time I direction base = Inr (base * (0.5 + real_of_int density / 100))) \<and>
   get_adaptive_green_time (update_traffic_density I ''NORTH'' 100) ''NORTH'' 5 = Inr 7.5 \<and>
   get_adaptive_green_time (update_traffic_density I ''NORTH'' 0) ''NORTH'' 5 = Inr 2.5"
  by (simp add: get_adaptive_green_time_def update_traffic_density_def update_conv')

text \<open>Witness: EAST in a fresh intersection has density 0, and the green time for base 5 is 2.5.\<close>

theorem get_adaptive_green_time_formula_witness:
  "map_of (traffic_density (Intersection_init ''Intersection-1'')) ''EAST'' = Some 0 \<and>
   get_adaptive_green_time (Intersection_init ''Intersection-1'') ''EAST'' 5 = Inr 2.5"
  using get_adaptive_green_time_formula [of "Intersection_init ''Intersection-1''" "''EAST''" 0 5]
  by (simp add: Intersection_init_def)

subsection \<open>C7: the green time grows with the density\<close>

text \<open>
  Claim C7 says that for every direction, every base time and all densities \<open>d1 < d2\<close> the
  green time at \<open>d1\<close> is at most the green time at \<open>d2\<close>.

  This holds for every base time that is not negative. The function takes any number as
  base time and multiplies; a negative base time turns the order round.
\<close>

theorem adaptive_green_time_monotone:
  assumes "0 \<le> base" and "d1 < d2"
    and "map_of (traffic_density I1) direction = Some d1"
    and "map_of (traffic_density I2) direction = Some d2"
  shows "\<exists>g1 g2. get_adaptive_green_time I1 direction base = Inr g1 \<and>
                 get_adaptive_green_time I2 direction base = Inr g2 \<and> g1 \<le> g2"
proof -
  have "real_of_int d1 / 100 \<le> real_of_int d2 / 100"
    using assms(2) by (simp add: divide_right_mono)
  then have "base * (0.5 + real_of_int d1 / 100) \<le> base * (0.5 + real_of_int d2 / 100)"
    using assms(1) by (intro mult_left_mono) simp_all
  then show ?thesis
    using assms(3,4) by (simp add: get_adaptive_green_time_def)
qed

text \<open>Witness: base 5, NORTH at density 0 and at density 100: 2.5 and 7.5.\<close>

theorem adaptive_green_time_monotone_witness:
  "(0::real) \<le> 5 \<and> (0::int) < 100 \<and>
   map_of (traffic_density (update_traffic_density (Intersection_init ''Intersection-1'') ''NORTH'' 0))
     ''NORTH'' = Some 0 \<and>
   map_of (traffic_density (update_traffic_density (Intersection_init ''Intersection-1'') ''NORTH'' 100))
     ''NORTH'' = Some 100 \<and>
   (\<exists>g1 g2.
      get_adaptive_green_time
        (update_traffic_density (Intersection_init ''Intersection-1'') ''NORTH'' 0) ''NORTH'' 5 = Inr g1 \<and>
      get_adaptive_green_time
        (update_traffic_density (Intersection_init ''Intersection-1'') ''NORTH'' 100) ''NORTH'' 5 = Inr g2 \<and>
      g1 \<le> g2)"
proof -
  let ?A = "update_traffic_density (Intersection_init ''Intersection-1'') ''NORTH'' 0"
  let ?B = "update_traffic_density (Intersection_init ''Intersection-1'') ''NORTH'' 100"
  have b: "(0::real) \<le> 5" and d: "(0::int) < 100" by simp_all
  have a1: "map_of (traffic_density ?A) ''NORTH'' = Some 0"
    and a2: "map_of (traffic_density ?B) ''NORTH'' = Some 100"
    by (simp_all add: update_traffic_density_def update_conv')
  from adaptive_green_time_monotone [OF b d a1 a2] b d a1 a2 show ?thesis by blast
qed

text \<open>
  Counterexample to C7 as stated: with base time \<open>-1\<close> the green time of NORTH is \<open>-0.5\<close> at
  density 0 and \<open>-1.5\<close> at density 100.
\<close>

theorem negative_base_time_counterexample:
  "(0::int) < 100 \<and>
   get_adaptive_green_time
     (update_traffic_density (Intersection_init ''Intersection-1'') ''NORTH'' 0) ''NORTH'' (- 1)
     = Inr (- 0.5) \<and>
   get_adaptive_green_time
     (update_traffic_density (Intersection_init ''Intersection-1'') ''NORTH'' 100) ''NORTH'' (- 1)
     = Inr (- 1.5) \<and>
   \<not> ((- 0.5 :: real) \<le> - 1.5)"
  by (simp add: get_adaptive_green_time_def update_traffic_density_def update_conv')

subsection \<open>C8: densities are clamped\<close>

text \<open>
  Claim C8: for every integer, \<open>update_traffic_density\<close> stores the value clamped into the
  range from 0 to 100 for the direction (0 for a value below 0, 100 for a value above 100),
  it never raises, and the stored density for the direction is then in that range.

  The assignment to the dictionary cannot fail (a key that is not there is added), so the
  function has no error result. As nothing else writes the table, every density in it is
  in the range in every state of a running system (\<open>reachable_counters_ok\<close>).
\<close>

theorem update_traffic_density_clamps:
  "map_of (traffic_density (update_traffic_density I direction density)) direction =
     Some (if density < 0 then 0 else if 100 < density then 100 else density) \<and>
   (\<exists>v. map_of (traffic_density (update_traffic_density I direction density)) direction = Some v \<and>
        0 \<le> v \<and> v \<le> 100)"
  by (simp add: update_traffic_density_def update_conv')

subsection \<open>C9: the statistics of the system\<close>

text \<open>
  Claim C9 says that \<open>get_system_stats\<close> returns the sums of the counters \<open>total_cycles\<close>,
  \<open>total_wait_time\<close>, \<open>emergency_responses\<close>, \<open>deadlock_preventions\<close> and \<open>vehicles_passed\<close>
  of the intersections, and as \<open>average_wait_time\<close> the sum of the wait times divided by
  the sum of the cycles, or 0 when the sum of the cycles is zero.

  The dictionary that is returned has five keys. Four are the sums of \<open>total_cycles\<close>,
  \<open>emergency_responses\<close>, \<open>deadlock_preventions\<close> and \<open>vehicles_passed\<close>; the sum of the wait
  times is not among them. The fifth, \<open>average_wait_time\<close>, is a text: that quotient (0
  without cycles) in the format \<open>:.2f\<close>, followed by \<open>s\<close>. The number the text shows is the
  nearest hundredth, at most 0.005 away from the quotient. The hypothesis is that no
  counter of cycles is negative: they start at 0 and are only incremented
  (\<open>reachable_counters_ok\<close>); the code tests the sum for \<open>> 0\<close>.
\<close>

theorem get_system_stats_totals:
  assumes "\<forall>I \<in> set (intersections c). 0 \<le> total_cycles (stats I)"
  shows "stat_total_cycles (get_system_stats c) = (\<Sum>I\<leftarrow>intersections c. total_cycles (stats I)) \<and>
         stat_emergency_responses (get_system_stats c) =
           (\<Sum>I\<leftarrow>intersections c. emergency_responses (stats I)) \<and>
         stat_deadlock_preventions (get_system_stats c) =
           (\<Sum>I\<leftarrow>intersections c. deadlock_preventions (stats I)) \<and>
         stat_vehicles_passed (get_system_stats c) =
           (\<Sum>I\<leftarrow>intersections c. vehicles_passed (stats I)) \<and>
         stat_average_wait_time (get_system_stats c) = format_2f (spec_average_wait_time c) @ ''s'' \<and>
         \<bar>real_of_int (round_half_even (\<bar>spec_average_wait_time c\<bar> * 100)) / 100
            - \<bar>spec_average_wait_time c\<bar>\<bar> \<le> 1 / 200"
proof -
  have "0 \<le> (\<Sum>I\<leftarrow>intersections c. total_cycles (stats I))"
    using assms by (rule sum_list_nonneg_int)
  then have avg: "average_green_time (total_stats c) = spec_average_wait_time c"
    by (auto simp: total_stats_def spec_average_wait_time_def Let_def add_stats_fields)
  have fields:
    "stat_total_cycles (get_system_stats c) = (\<Sum>I\<leftarrow>intersections c. total_cycles (stats I))"
    "stat_emergency_responses (get_system_stats c) =
       (\<Sum>I\<leftarrow>intersections c. emergency_responses (stats I))"
    "stat_deadlock_preventions (get_system_stats c) =
       (\<Sum>I\<leftarrow>intersections c. deadlock_preventions (stats I))"
    "stat_vehicles_passed (get_system_stats c) = (\<Sum>I\<leftarrow>intersections c. vehicles_passed (stats I))"
    by (auto simp: get_system_stats_def total_stats_def Let_def add_stats_fields)
  have shown: "stat_average_wait_time (get_system_stats c) = format_2f (spec_average_wait_time c) @ ''s''"
    using avg by (simp add: get_system_stats_def Let_def)
  from round_half_even_close [of "\<bar>spec_average_wait_time c\<bar> * 100"]
  have "\<bar>real_of_int (round_half_even (\<bar>spec_average_wait_time c\<bar> * 100)) / 100
          - \<bar>spec_average_wait_time c\<bar>\<bar> \<le> 1 / 200"
    by (simp add: field_simps abs_if split: if_splits)
  with fields shown show ?thesis by blast
qed

text \<open>
  Witness: two intersections with 3 and 1 cycles and wait times 6 and 2: 4 cycles, and an
  average wait time of 2, shown as \<open>2.00s\<close>.
\<close>

theorem get_system_stats_totals_witness:
  "0 \<le> total_cycles (stats (intersections two_intersections ! 0)) \<and>
   0 \<le> total_cycles (stats (intersections two_intersections ! 1)) \<and>
   length (intersections two_intersections) = 2 \<and>
   stat_total_cycles (get_system_stats two_intersections) = 4 \<and>
   stat_emergency_responses (get_system_stats two_intersections) = 1 \<and>
   stat_deadlock_preventions (get_system_stats two_intersections) = 7 \<and>
   stat_vehicles_passed (get_system_stats two_intersections) = 19 \<and>
   spec_average_wait_time two_intersections = 2 \<and>
   stat_average_wait_time (get_system_stats two_intersections) = ''2.00s''"
proof -
  have h: "\<forall>I \<in> set (intersections two_intersections). 0 \<le> total_cycles (stats I)"
    by (simp add: two_intersections_def)
  have q: "spec_average_wait_time two_intersections = 2"
    by (simp add: spec_average_wait_time_def two_intersections_def)
  have f: "format_2f 2 = ''2.00''"
    by (simp add: format_2f_def round_half_even_def str_nat.simps Let_def)
  from get_system_stats_totals [OF h] q f show ?thesis
    by (simp add: two_intersections_def)
qed

text \<open>
  Counterexample to C9 as stated: one intersection with 3 cycles and a wait time of 1 in
  all. The quotient is 1/3; what is returned under \<open>average_wait_time\<close> is the text
  \<open>0.33s\<close>, the same text as for 33/100, which is another number.
\<close>

theorem average_wait_time_is_rounded_text_counterexample:
  "length (intersections three_cycles) = 1 \<and>
   total_cycles (stats (intersections three_cycles ! 0)) = 3 \<and>
   total_wait_time (stats (intersections three_cycles ! 0)) = 1 \<and>
   spec_average_wait_time three_cycles = 1 / 3 \<and>
   stat_average_wait_time (get_system_stats three_cycles) = ''0.33s'' \<and>
   format_2f (33 / 100) @ ''s'' = ''0.33s'' \<and>
   (33 / 100 :: real) \<noteq> 1 / 3"
  by (simp add: three_cycles_def spec_average_wait_time_def get_system_stats_def total_stats_def
      format_2f_def round_half_even_def str_nat.simps Let_def)

subsection \<open>C10: an index that is out of range\<close>

text \<open>
  Claim C10: \<open>trigger_emergency\<close> and \<open>update_traffic_density\<close> of the controller, called
  with an index outside the range from 0 to the number of intersections, return without
  raising and change nothing: no request is queued and no state of any intersection
  changes.
\<close>

theorem out_of_range_index_is_noop:
  assumes "\<not> (0 \<le> idx \<and> idx < int (length (intersections c)))"
  shows "trigger_emergency c idx direction created queued = (None, c) \<and>
         ctl_update_traffic_density c idx direction density = c"
  using assms unfolding trigger_emergency_def ctl_update_traffic_density_def
  by (simp only: if_False simp_thms)

text \<open>Witness: the controller with one intersection, called with index 1.\<close>

theorem out_of_range_index_is_noop_witness:
  "\<not> (0 \<le> (1::int) \<and> (1::int) < int (length (intersections (TrafficController_init 1 0)))) \<and>
   trigger_emergency (TrafficController_init 1 0) 1 ''NORTH'' 10 10 = (None, TrafficController_init 1 0) \<and>
   ctl_update_traffic_density (TrafficController_init 1 0) 1 ''NORTH'' 50 = TrafficController_init 1 0"
proof -
  have h: "\<not> (0 \<le> (1::int) \<and> (1::int) < int (length (intersections (TrafficController_init 1 0))))"
    by (simp add: TrafficController_init_def)
  show ?thesis
    using h out_of_range_index_is_noop [OF h, of "''NORTH''" 10 10 50] by simp
qed

end
